theory Spec2Isabelle
  imports Complex_Main "HOL-Library.Option_ord"
begin

section \<open>Data model (app/models.py)\<close>

text \<open>
  The four SQLAlchemy tables are records; a table is the list of its rows in insertion
  order. Python's unbounded integers are \<open>int\<close>; a \<open>datetime\<close> is a point on an integer
  time axis; a nullable column is an \<open>option\<close>. Column names are prefixed with the
  table they belong to, since \<open>id\<close> and \<open>user_id\<close> occur in several tables.
\<close>

type_synonym datetime = int

record user =
  u_id :: int
  u_name :: string
  u_email :: "string option"
  u_created_at :: datetime

record workout_session =
  ws_id :: int
  ws_user_id :: int
  ws_started_at :: datetime
  ws_ended_at :: "datetime option"
  ws_is_active :: bool

record exercise =
  ex_id :: int
  ex_session_id :: int
  ex_exercise_name :: string
  ex_assigned_reps :: int
  ex_completed_reps :: "int option"
  ex_created_at :: datetime

record workout_recommendation =
  rec_id :: int
  rec_user_id :: int
  rec_next_recommended_reps :: int
  rec_updated_at :: datetime

record database =
  users :: "user list"
  workout_sessions :: "workout_session list"
  exercises :: "exercise list"
  workout_recommendations :: "workout_recommendation list"

definition empty_database :: database where
  "empty_database =
     \<lparr>users = [], workout_sessions = [], exercises = [], workout_recommendations = []\<rparr>"

section \<open>Errors (app/exceptions.py, app/main.py)\<close>

text \<open>
  Every exception class of app/exceptions.py that the operations raise is a constructor
  carrying the constructor arguments of the class. \<open>RequestValidationError\<close> is what
  the request layer raises when a body violates its schema of app/schemas.py.
  \<open>AttributeError\<close>, \<open>TypeError\<close> and \<open>ZeroDivisionError\<close> are the Python run-time
  errors of reading a field of \<open>None\<close>, of comparing \<open>None\<close> with an integer and of
  dividing by zero. \<open>OverflowError\<close> is raised when a Python integer that does not fit
  the store's 64-bit \<open>Integer\<close> is bound to a statement, \<open>OperationalError\<close> when the
  store has no key left for a new row.
\<close>

datatype error =
    UserNotFoundException int
  | WorkoutSessionNotFoundException int
  | ActiveSessionExistsException int int
  | SessionNotActiveException int
  | ExerciseNotLoggedException int
  | RequestValidationError
  | AttributeError
  | TypeError
  | ZeroDivisionError
  | OverflowError
  | OperationalError

text \<open>The HTTP status and the machine-readable code each exception is built with; the
  handlers of app/main.py answer 422 / VALIDATION\_ERROR to a validation error and
  500 / INTERNAL\_SERVER\_ERROR to any other exception.\<close>

fun status_code :: "error \<Rightarrow> nat" where
  "status_code (UserNotFoundException _) = 404"
| "status_code (WorkoutSessionNotFoundException _) = 404"
| "status_code (ActiveSessionExistsException _ _) = 409"
| "status_code (SessionNotActiveException _) = 409"
| "status_code (ExerciseNotLoggedException _) = 409"
| "status_code RequestValidationError = 422"
| "status_code _ = 500"

fun code :: "error \<Rightarrow> string" where
  "code (UserNotFoundException _) = ''USER_NOT_FOUND''"
| "code (WorkoutSessionNotFoundException _) = ''WORKOUT_SESSION_NOT_FOUND''"
| "code (ActiveSessionExistsException _ _) = ''ACTIVE_SESSION_EXISTS''"
| "code (SessionNotActiveException _) = ''SESSION_NOT_ACTIVE''"
| "code (ExerciseNotLoggedException _) = ''EXERCISE_NOT_LOGGED''"
| "code RequestValidationError = ''VALIDATION_ERROR''"
| "code _ = ''INTERNAL_SERVER_ERROR''"

section \<open>The recommendation rule (app/crud.py, calculate\_next\_reps)\<close>

definition calculate_next_reps :: "int \<Rightarrow> int \<Rightarrow> int" where
  "calculate_next_reps assigned_reps completed_reps =
     (let next_reps = (if completed_reps \<ge> assigned_reps
                       then assigned_reps + 2
                       else assigned_reps - 1)
      in max 1 next_reps)"

section \<open>The store and the ORM session\<close>

text \<open>
  A query \<open>db.query(M).filter(P).first()\<close> is \<open>find P\<close> on the table. An
  \<open>order_by\<close> followed by \<open>first()\<close> returns a row whose sort key is extremal among the
  filtered rows; among rows with equal keys the earliest row of the table is taken.
  \<open>NULL\<close> sorts below every value, as \<open>None\<close> does in the order of \<open>option\<close>.
\<close>

fun first_desc :: "('a \<Rightarrow> 'k::linorder) \<Rightarrow> 'a list \<Rightarrow> 'a option" where
  "first_desc key [] = None"
| "first_desc key (x # xs) =
     (case first_desc key xs of
        None \<Rightarrow> Some x
      | Some y \<Rightarrow> if key x < key y then Some y else Some x)"

fun first_asc :: "('a \<Rightarrow> 'k::linorder) \<Rightarrow> 'a list \<Rightarrow> 'a option" where
  "first_asc key [] = None"
| "first_asc key (x # xs) =
     (case first_asc key xs of
        None \<Rightarrow> Some x
      | Some y \<Rightarrow> if key y < key x then Some y else Some x)"

text \<open>
  The \<open>Integer\<close> columns of app/models.py hold signed 64-bit values. Python integers
  are unbounded, so every integer that a statement binds, in a filter or as a value to
  write, is checked against this range when the statement runs; outside it the
  statement raises \<open>OverflowError\<close> and is not executed.
\<close>

definition storable :: "int \<Rightarrow> bool" where
  "storable x \<longleftrightarrow> - (2 ^ 63) \<le> x \<and> x < 2 ^ 63"

text \<open>An autoincrement primary key: one more than the largest key of the table. A
  table whose next key is not storable takes no further row.\<close>

definition next_id :: "int list \<Rightarrow> int" where
  "next_id ids = fold max ids 0 + 1"

text \<open>
  An ORM session works on a pending copy of the store: \<open>db.add\<close>, attribute
  assignments and \<open>db.flush()\<close> change the pending copy only, queries read it, and
  \<open>db.commit()\<close> makes it the committed store that other requests observe. Every
  request opens its own session on the committed store (\<open>Depends(get_db)\<close>), and
  what a session has not committed when the request ends is discarded. A statement
  fails when it binds an integer that is not storable or needs a key that is not;
  other failures of the store (a lost connection, a full disk) are not modelled.
\<close>

record txn =
  committed :: database
  pending :: database

definition begin_txn :: "database \<Rightarrow> txn" where
  "begin_txn db = \<lparr>committed = db, pending = db\<rparr>"

definition commit :: "txn \<Rightarrow> txn" where
  "commit t = t\<lparr>committed := pending t\<rparr>"

definition with_db :: "(txn \<Rightarrow> 'a \<times> txn) \<Rightarrow> database \<Rightarrow> 'a \<times> database" where
  "with_db f db = (case f (begin_txn db) of (r, t) \<Rightarrow> (r, committed t))"

definition add_user :: "user \<Rightarrow> txn \<Rightarrow> txn" where
  "add_user u t = t\<lparr>pending := (pending t)\<lparr>users := users (pending t) @ [u]\<rparr>\<rparr>"

definition add_workout_session :: "workout_session \<Rightarrow> txn \<Rightarrow> txn" where
  "add_workout_session s t =
     t\<lparr>pending := (pending t)\<lparr>workout_sessions := workout_sessions (pending t) @ [s]\<rparr>\<rparr>"

definition add_exercise :: "exercise \<Rightarrow> txn \<Rightarrow> txn" where
  "add_exercise e t = t\<lparr>pending := (pending t)\<lparr>exercises := exercises (pending t) @ [e]\<rparr>\<rparr>"

definition add_workout_recommendation :: "workout_recommendation \<Rightarrow> txn \<Rightarrow> txn" where
  "add_workout_recommendation r t =
     t\<lparr>pending := (pending t)
          \<lparr>workout_recommendations := workout_recommendations (pending t) @ [r]\<rparr>\<rparr>"

text \<open>An attribute assignment on a loaded row is an UPDATE of the row with its primary key.\<close>

definition update_workout_session ::
    "int \<Rightarrow> (workout_session \<Rightarrow> workout_session) \<Rightarrow> txn \<Rightarrow> txn" where
  "update_workout_session pk f t =
     t\<lparr>pending := (pending t)
          \<lparr>workout_sessions :=
             map (\<lambda>s. if ws_id s = pk then f s else s) (workout_sessions (pending t))\<rparr>\<rparr>"

definition update_exercise :: "int \<Rightarrow> (exercise \<Rightarrow> exercise) \<Rightarrow> txn \<Rightarrow> txn" where
  "update_exercise pk f t =
     t\<lparr>pending := (pending t)
          \<lparr>exercises := map (\<lambda>e. if ex_id e = pk then f e else e) (exercises (pending t))\<rparr>\<rparr>"

definition update_workout_recommendation ::
    "int \<Rightarrow> (workout_recommendation \<Rightarrow> workout_recommendation) \<Rightarrow> txn \<Rightarrow> txn" where
  "update_workout_recommendation pk f t =
     t\<lparr>pending := (pending t)
          \<lparr>workout_recommendations :=
             map (\<lambda>r. if rec_id r = pk then f r else r)
               (workout_recommendations (pending t))\<rparr>\<rparr>"

text \<open>The relationship \<open>session.exercise\<close> (\<open>uselist=False\<close>): the exercise row whose
  \<open>session_id\<close> is the session's id, or \<open>None\<close>.\<close>

definition exercise_of :: "database \<Rightarrow> workout_session \<Rightarrow> exercise option" where
  "exercise_of db s = find (\<lambda>e. ex_session_id e = ws_id s) (exercises db)"

section \<open>User operations (app/crud.py)\<close>

definition create_user ::
    "datetime \<Rightarrow> string \<Rightarrow> string option \<Rightarrow> txn \<Rightarrow> (error + user) \<times> txn" where
  "create_user now name email t =
     (let db_user = \<lparr>u_id = next_id (map u_id (users (pending t))), u_name = name,
                      u_email = email, u_created_at = now\<rparr>
      in if \<not> storable (u_id db_user) then (Inl OperationalError, t)
         else (Inr db_user, commit (add_user db_user t)))"

definition get_user :: "database \<Rightarrow> int \<Rightarrow> error + user" where
  "get_user db user_id =
     (if \<not> storable user_id then Inl OverflowError
      else case find (\<lambda>u. u_id u = user_id) (users db) of
             None \<Rightarrow> Inl (UserNotFoundException user_id)
           | Some user \<Rightarrow> Inr user)"

section \<open>Workout session operations (app/crud.py)\<close>

text \<open>
  \<open>create_workout_session\<close> in its two parts. The first (lines 129 to 139) reads:
  it looks the user up, queries for an active session of the user and raises when
  there is one. The second (lines 141 to 157) writes: the session row is added and
  flushed, the exercise row is added, and the commit flushes the exercise and makes
  both rows visible. The flush of a row fails when its key or a bound value is not
  storable; a failure between the two writes leaves the flushed session in the pending
  copy only.
\<close>

definition create_workout_session_check :: "database \<Rightarrow> int \<Rightarrow> error + user" where
  "create_workout_session_check db user_id =
     (case get_user db user_id of
        Inl e \<Rightarrow> Inl e
      | Inr user \<Rightarrow>
         (case find (\<lambda>s. ws_user_id s = user_id \<and> ws_is_active s) (workout_sessions db) of
            Some active_session \<Rightarrow>
              Inl (ActiveSessionExistsException user_id (ws_id active_session))
          | None \<Rightarrow> Inr user))"

definition create_workout_session_write ::
    "datetime \<Rightarrow> int \<Rightarrow> int \<Rightarrow> string \<Rightarrow> txn \<Rightarrow> (error + workout_session) \<times> txn" where
  "create_workout_session_write now user_id assigned_reps exercise_name t =
     (let db_session =
            \<lparr>ws_id = next_id (map ws_id (workout_sessions (pending t))),
             ws_user_id = user_id, ws_started_at = now, ws_ended_at = None,
             ws_is_active = True\<rparr>
      in if \<not> storable (ws_id db_session) then (Inl OperationalError, t)
         else
          (let t1 = add_workout_session db_session t;
               db_exercise =
                 \<lparr>ex_id = next_id (map ex_id (exercises (pending t1))),
                  ex_session_id = ws_id db_session, ex_exercise_name = exercise_name,
                  ex_assigned_reps = assigned_reps, ex_completed_reps = None,
                  ex_created_at = now\<rparr>
           in if \<not> storable assigned_reps then (Inl OverflowError, t1)
              else if \<not> storable (ex_id db_exercise) then (Inl OperationalError, t1)
              else (Inr db_session, commit (add_exercise db_exercise t1))))"

definition create_workout_session ::
    "datetime \<Rightarrow> int \<Rightarrow> int \<Rightarrow> string \<Rightarrow> txn \<Rightarrow> (error + workout_session) \<times> txn" where
  "create_workout_session now user_id assigned_reps exercise_name t =
     (case create_workout_session_check (pending t) user_id of
        Inl e \<Rightarrow> (Inl e, t)
      | Inr user \<Rightarrow> create_workout_session_write now user_id assigned_reps exercise_name t)"

definition get_workout_session :: "database \<Rightarrow> int \<Rightarrow> error + workout_session" where
  "get_workout_session db session_id =
     (if \<not> storable session_id then Inl OverflowError
      else case find (\<lambda>s. ws_id s = session_id) (workout_sessions db) of
             None \<Rightarrow> Inl (WorkoutSessionNotFoundException session_id)
           | Some session \<Rightarrow> Inr session)"

definition log_exercise :: "int \<Rightarrow> int \<Rightarrow> txn \<Rightarrow> (error + workout_session) \<times> txn" where
  "log_exercise session_id completed_reps t =
     (case get_workout_session (pending t) session_id of
        Inl e \<Rightarrow> (Inl e, t)
      | Inr session \<Rightarrow>
          if \<not> ws_is_active session then (Inl (SessionNotActiveException session_id), t)
          else (case exercise_of (pending t) session of
                  None \<Rightarrow> (Inl AttributeError, t)
                | Some ex \<Rightarrow>
                    if \<not> storable completed_reps then (Inl OverflowError, t)
                    else
                     (let t1 = update_exercise (ex_id ex)
                                 (\<lambda>e. e\<lparr>ex_completed_reps := Some completed_reps\<rparr>) t
                      in (Inr session, commit t1))))"

text \<open>
  In \<open>end_workout_session\<close> the query for the recommendation flushes the changed
  session into the pending copy; the recommendation is written by the flush of the
  commit, which fails when the next reps are not storable, or when a new row is needed
  and has no storable key. The session is then ended in the pending copy only.
\<close>

definition end_workout_session ::
    "datetime \<Rightarrow> int \<Rightarrow> txn \<Rightarrow> (error + workout_session \<times> int) \<times> txn" where
  "end_workout_session now session_id t =
     (case get_workout_session (pending t) session_id of
        Inl e \<Rightarrow> (Inl e, t)
      | Inr session \<Rightarrow>
          if \<not> ws_is_active session then (Inl (SessionNotActiveException session_id), t)
          else (case exercise_of (pending t) session of
                  None \<Rightarrow> (Inl AttributeError, t)
                | Some ex \<Rightarrow>
                   (case ex_completed_reps ex of
                      None \<Rightarrow> (Inl (ExerciseNotLoggedException session_id), t)
                    | Some completed \<Rightarrow>
                       (let ended = (\<lambda>s. s\<lparr>ws_ended_at := Some now, ws_is_active := False\<rparr>);
                            t1 = update_workout_session (ws_id session) ended t;
                            next_reps = calculate_next_reps (ex_assigned_reps ex) completed
                        in if \<not> storable next_reps then (Inl OverflowError, t1)
                           else
                            (case find (\<lambda>r. rec_user_id r = ws_user_id session)
                                    (workout_recommendations (pending t1)) of
                               Some recommendation \<Rightarrow>
                                 (Inr (ended session, next_reps),
                                  commit (update_workout_recommendation (rec_id recommendation)
                                    (\<lambda>r. r\<lparr>rec_next_recommended_reps := next_reps,
                                            rec_updated_at := now\<rparr>) t1))
                             | None \<Rightarrow>
                                 (let new_recommendation =
                                        \<lparr>rec_id = next_id (map rec_id
                                           (workout_recommendations (pending t1))),
                                         rec_user_id = ws_user_id session,
                                         rec_next_recommended_reps = next_reps,
                                         rec_updated_at = now\<rparr>
                                  in if \<not> storable (rec_id new_recommendation)
                                     then (Inl OperationalError, t1)
                                     else (Inr (ended session, next_reps),
                                           commit (add_workout_recommendation
                                                     new_recommendation t1))))))))"

section \<open>Recommendations (app/crud.py, get\_recommendation)\<close>

record progression =
  trend :: string
  total_increase :: int
  sessions_count :: nat

record recommendation_view =
  recommended_reps :: int
  reason :: string
  last_session :: "workout_session option"
  progression :: progression

text \<open>The rows the three session queries of \<open>get_recommendation\<close> filter:
  the sessions of the user with \<open>is_active == False\<close>.\<close>

definition ended_sessions :: "database \<Rightarrow> int \<Rightarrow> workout_session list" where
  "ended_sessions db user_id =
     filter (\<lambda>s. ws_user_id s = user_id \<and> ws_is_active s = False) (workout_sessions db)"

text \<open>\<open>x and x.exercise\<close>: the exercise of the session, when there is a session and it
  has one.\<close>

definition and_exercise :: "database \<Rightarrow> workout_session option \<Rightarrow> exercise option" where
  "and_exercise db x = (case x of None \<Rightarrow> None | Some s \<Rightarrow> exercise_of db s)"

text \<open>\<open>completed_reps >= assigned_reps\<close> raises \<open>TypeError\<close> when the completed reps
  are \<open>None\<close>; both places of \<open>get_recommendation\<close> that read the last exercise make
  this comparison first.\<close>

definition get_recommendation :: "database \<Rightarrow> int \<Rightarrow> error + recommendation_view" where
  "get_recommendation db user_id =
     (case get_user db user_id of
        Inl e \<Rightarrow> Inl e
      | Inr _ \<Rightarrow>
         (let recommendation =
                find (\<lambda>r. rec_user_id r = user_id) (workout_recommendations db);
              last = first_desc ws_ended_at (ended_sessions db user_id);
              completed_sessions = length (ended_sessions db user_id);
              recommended0 =
                (case recommendation of
                   Some r \<Rightarrow> Inr (rec_next_recommended_reps r)
                 | None \<Rightarrow>
                    (case and_exercise db last of
                       Some ex \<Rightarrow>
                         (case ex_completed_reps ex of
                            None \<Rightarrow> Inl TypeError
                          | Some c \<Rightarrow> Inr (calculate_next_reps (ex_assigned_reps ex) c))
                     | None \<Rightarrow> Inr 10))
          in case recommended0 of
               Inl e \<Rightarrow> Inl e
             | Inr recommended \<Rightarrow>
                (let reason_trend =
                       (case and_exercise db last of
                          Some ex \<Rightarrow>
                            (case ex_completed_reps ex of
                               None \<Rightarrow> Inl TypeError
                             | Some c \<Rightarrow>
                                 if c \<ge> ex_assigned_reps ex
                                 then Inr (''Completed all reps in last session'', ''improving'')
                                 else Inr (''Did not complete all reps in last session'',
                                           ''adjusting''))
                        | None \<Rightarrow> Inr (''Starting recommendation'', ''new''))
                 in case reason_trend of
                      Inl e \<Rightarrow> Inl e
                    | Inr (reason0, trend0) \<Rightarrow>
                       (let first_session =
                              first_asc ws_started_at (ended_sessions db user_id);
                            increase =
                              (case and_exercise db first_session of
                                 Some ex \<Rightarrow> recommended - ex_assigned_reps ex
                               | None \<Rightarrow> 0)
                        in Inr \<lparr>recommended_reps = recommended,
                                reason = reason0,
                                last_session = last,
                                progression =
                                  \<lparr>trend = trend0, total_increase = increase,
                                   sessions_count = completed_sessions\<rparr>\<rparr>))))"

section \<open>The request layer (app/schemas.py, app/routers)\<close>

text \<open>
  A request body is checked against its schema before the endpoint runs; a body that
  violates a \<open>Field\<close> constraint is answered with a validation error and the endpoint
  is not entered. The bodies below are those that already have the schema's field types.
\<close>

record WorkoutSessionCreate =
  assigned_reps :: int
  exercise_name :: "string option"

record ExerciseLog =
  completed_reps :: int

definition valid_WorkoutSessionCreate :: "WorkoutSessionCreate \<Rightarrow> bool" where
  "valid_WorkoutSessionCreate workout \<longleftrightarrow>
     assigned_reps workout > 0 \<and>
     (case exercise_name workout of None \<Rightarrow> True | Some n \<Rightarrow> length n \<le> 100)"

definition valid_ExerciseLog :: "ExerciseLog \<Rightarrow> bool" where
  "valid_ExerciseLog exercise_log \<longleftrightarrow> completed_reps exercise_log \<ge> 0"

text \<open>\<open>workout.exercise_name or "Push-ups"\<close>: \<open>None\<close> and the empty string are falsy.\<close>

definition or_push_ups :: "string option \<Rightarrow> string" where
  "or_push_ups n = (case n of None \<Rightarrow> ''Push-ups'' | Some x \<Rightarrow> if x = [] then ''Push-ups'' else x)"

text \<open>The endpoints, up to the formatting of the response: each returns what the
  operation of app/crud.py returned, and the committed store after the request.\<close>

definition start_workout ::
    "datetime \<Rightarrow> int \<Rightarrow> WorkoutSessionCreate \<Rightarrow> database
       \<Rightarrow> (error + workout_session) \<times> database" where
  "start_workout now user_id workout db =
     (if \<not> valid_WorkoutSessionCreate workout then (Inl RequestValidationError, db)
      else with_db (create_workout_session now user_id (assigned_reps workout)
                      (or_push_ups (exercise_name workout))) db)"

definition log_exercise_result ::
    "int \<Rightarrow> ExerciseLog \<Rightarrow> database \<Rightarrow> (error + workout_session) \<times> database" where
  "log_exercise_result session_id exercise_log db =
     (if \<not> valid_ExerciseLog exercise_log then (Inl RequestValidationError, db)
      else with_db (log_exercise session_id (completed_reps exercise_log)) db)"

definition end_workout ::
    "datetime \<Rightarrow> int \<Rightarrow> database \<Rightarrow> (error + workout_session \<times> int) \<times> database" where
  "end_workout now session_id db = with_db (end_workout_session now session_id) db"

subsection \<open>Pagination metadata of the listings (list\_users, list\_user\_workouts)\<close>

text \<open>
  Both listings clamp the page size with \<open>limit = min(limit, 100)\<close> and derive
  \<open>total_pages = math.ceil(total / limit) if total > 0 else 1\<close>. The quotient is a true
  division, which raises \<open>ZeroDivisionError\<close> for \<open>limit = 0\<close>; its ceiling is computed
  here on the integers (\<open>- (- total div limit)\<close>, with the flooring \<open>div\<close>).
\<close>

record pagination =
  current_page :: int
  total_pages :: int
  total_items :: int
  items_per_page :: int

definition clamp_limit :: "int \<Rightarrow> int" where
  "clamp_limit limit = min limit 100"

definition calc_total_pages :: "int \<Rightarrow> int \<Rightarrow> error + int" where
  "calc_total_pages total_n limit =
     (if total_n > 0
      then (if limit = 0 then Inl ZeroDivisionError else Inr (- ((- total_n) div limit)))
      else Inr 1)"

definition pagination_meta :: "int \<Rightarrow> int \<Rightarrow> int \<Rightarrow> error + pagination" where
  "pagination_meta page limit0 total_n =
     (let limit = clamp_limit limit0
      in case calc_total_pages total_n limit of
           Inl e \<Rightarrow> Inl e
         | Inr pages \<Rightarrow>
             Inr \<lparr>current_page = page, total_pages = pages, total_items = total_n,
                  items_per_page = limit\<rparr>)"

text \<open>The totals the two listings count (\<open>query.count()\<close> in \<open>get_users\<close> and in
  \<open>get_user_workout_sessions\<close>, after the status filter).\<close>

definition count_users :: "database \<Rightarrow> int" where
  "count_users db = int (length (users db))"

definition count_user_workout_sessions :: "database \<Rightarrow> int \<Rightarrow> string \<Rightarrow> error + int" where
  "count_user_workout_sessions db user_id status =
     (case get_user db user_id of
        Inl e \<Rightarrow> Inl e
      | Inr _ \<Rightarrow>
          Inr (int (length
            (filter (\<lambda>s. ws_user_id s = user_id \<and>
                         (if status = ''active'' then ws_is_active s = True
                          else if status = ''completed'' then ws_is_active s = False
                          else True))
               (workout_sessions db)))))"

text \<open>\<open>query.offset(skip).limit(limit).all()\<close> binds the offset and the page size, and
  raises \<open>OverflowError\<close> for one that is not storable. The listings are taken with the
  defaults of the routers for \<open>sort_by\<close> and \<open>order\<close> (a column of the table, descending):
  the rows of the page are not modelled, only the metadata, which does not depend on their
  order.\<close>

definition page_query :: "int \<Rightarrow> int \<Rightarrow> error + unit" where
  "page_query skip limit =
     (if \<not> storable skip \<or> \<not> storable limit then Inl OverflowError else Inr ())"

definition list_users_meta :: "database \<Rightarrow> int \<Rightarrow> int \<Rightarrow> error + pagination" where
  "list_users_meta db page limit0 =
     (let limit = clamp_limit limit0;
          skip = (page - 1) * limit;
          total_n = count_users db
      in case page_query skip limit of
           Inl e \<Rightarrow> Inl e
         | Inr _ \<Rightarrow> pagination_meta page limit0 total_n)"

definition list_user_workouts_meta ::
    "database \<Rightarrow> int \<Rightarrow> string \<Rightarrow> int \<Rightarrow> int \<Rightarrow> error + pagination" where
  "list_user_workouts_meta db user_id status_filter page limit0 =
     (let limit = clamp_limit limit0;
          skip = (page - 1) * limit
      in case count_user_workout_sessions db user_id status_filter of
           Inl e \<Rightarrow> Inl e
         | Inr total_n \<Rightarrow>
            (case page_query skip limit of
               Inl e \<Rightarrow> Inl e
             | Inr _ \<Rightarrow> pagination_meta page limit0 total_n))"

section \<open>Histories of requests\<close>

text \<open>
  The stores the service reaches when it serves one request after the other: the stores
  left by a finite sequence of requests, each served at some clock reading, from the
  empty store. User creation is taken without the checks of its schema and of the
  unique e-mail column, which only makes more stores reachable.
\<close>

datatype request =
    CreateUser string "string option"
  | StartWorkout int WorkoutSessionCreate
  | LogExercise int ExerciseLog
  | EndWorkout int

fun serve :: "datetime \<times> request \<Rightarrow> database \<Rightarrow> database" where
  "serve (now, CreateUser name email) db = snd (with_db (create_user now name email) db)"
| "serve (now, StartWorkout user_id workout) db = snd (start_workout now user_id workout db)"
| "serve (now, LogExercise session_id exercise_log) db =
     snd (log_exercise_result session_id exercise_log db)"
| "serve (now, EndWorkout session_id) db = snd (end_workout now session_id db)"

definition run :: "(datetime \<times> request) list \<Rightarrow> database" where
  "run history = fold serve history empty_database"

text \<open>The active sessions of a user.\<close>

definition active_sessions :: "database \<Rightarrow> int \<Rightarrow> workout_session list" where
  "active_sessions db user_id =
     filter (\<lambda>s. ws_user_id s = user_id \<and> ws_is_active s) (workout_sessions db)"

subsection \<open>Two overlapping requests\<close>

text \<open>
  The endpoints are synchronous functions, which the server runs on worker threads,
  each request with an ORM session of its own. Two \<open>create_workout_session\<close> calls
  overlap when both have run their reads before either writes. The reads take no lock
  and app/models.py declares no constraint on the active sessions of a user, so the
  writes of the second call run on the store as the first call left it.
\<close>

definition overlapped_create_workout_sessions ::
    "datetime \<Rightarrow> int \<Rightarrow> int \<Rightarrow> string \<Rightarrow> datetime \<Rightarrow> int \<Rightarrow> int \<Rightarrow> string \<Rightarrow> database
       \<Rightarrow> ((error + workout_session) \<times> (error + workout_session)) \<times> database" where
  "overlapped_create_workout_sessions now_a user_a reps_a name_a now_b user_b reps_b name_b db =
     (let check_a = create_workout_session_check db user_a;
          check_b = create_workout_session_check db user_b;
          (result_a, db_a) =
            (case check_a of
               Inl e \<Rightarrow> (Inl e, db)
             | Inr _ \<Rightarrow> with_db (create_workout_session_write now_a user_a reps_a name_a) db);
          (result_b, db_b) =
            (case check_b of
               Inl e \<Rightarrow> (Inl e, db_a)
             | Inr _ \<Rightarrow> with_db (create_workout_session_write now_b user_b reps_b name_b) db_a)
      in ((result_a, result_b), db_b))"

section \<open>Conditions on stores\<close>

text \<open>
  The store conditions under which \<open>get_recommendation\<close> is studied: every ended
  session of the user has an exercise whose completed reps are set
  (\<open>ended_logged\<close>). It follows from \<open>consistent\<close>, which every store of a history
  satisfies: every exercise belongs to a session of the store, every session has an
  exercise, and the exercise of a session that is not active is logged. The keys of the
  users of such a store are storable (\<open>users_storable\<close>).
\<close>

definition logged :: "database \<Rightarrow> workout_session \<Rightarrow> bool" where
  "logged db s =
     (case exercise_of db s of None \<Rightarrow> False | Some e \<Rightarrow> ex_completed_reps e \<noteq> None)"

definition ended_logged :: "database \<Rightarrow> int \<Rightarrow> bool" where
  "ended_logged db user_id = list_all (logged db) (ended_sessions db user_id)"

definition paired :: "workout_session list \<Rightarrow> exercise list \<Rightarrow> bool" where
  "paired ws exs \<longleftrightarrow>
     list_all (\<lambda>e. ex_session_id e \<in> set (map ws_id ws)) exs \<and>
     list_all (\<lambda>s. case find (\<lambda>e. ex_session_id e = ws_id s) exs of
                      None \<Rightarrow> False
                    | Some e \<Rightarrow> ws_is_active s \<or> ex_completed_reps e \<noteq> None) ws"

definition consistent :: "database \<Rightarrow> bool" where
  "consistent db = paired (workout_sessions db) (exercises db)"

definition users_storable :: "database \<Rightarrow> bool" where
  "users_storable db = list_all (\<lambda>u. storable (u_id u)) (users db)"

section \<open>Example stores\<close>

text \<open>
  The store after a user was created at time 0 (\<open>store_user\<close>) and started a workout
  of 10 assigned reps at time 1 (\<open>store_started\<close>), after 10 completed reps were
  logged (\<open>store_logged\<close>), and after the workout was ended at time 3
  (\<open>store_ended\<close>).
\<close>

definition example_user :: user where
  "example_user = \<lparr>u_id = 1, u_name = ''Ann'', u_email = None, u_created_at = 0\<rparr>"

definition example_session :: workout_session where
  "example_session =
     \<lparr>ws_id = 1, ws_user_id = 1, ws_started_at = 1, ws_ended_at = None, ws_is_active = True\<rparr>"

definition example_exercise :: exercise where
  "example_exercise =
     \<lparr>ex_id = 1, ex_session_id = 1, ex_exercise_name = ''Push-ups'', ex_assigned_reps = 10,
      ex_completed_reps = None, ex_created_at = 1\<rparr>"

definition store_user :: database where
  "store_user = empty_database\<lparr>users := [example_user]\<rparr>"

definition store_started :: database where
  "store_started =
     \<lparr>users = [example_user], workout_sessions = [example_session],
      exercises = [example_exercise], workout_recommendations = []\<rparr>"

definition store_logged :: database where
  "store_logged =
     store_started\<lparr>exercises := [example_exercise\<lparr>ex_completed_reps := Some 10\<rparr>]\<rparr>"

definition store_ended :: database where
  "store_ended =
     store_logged
       \<lparr>workout_sessions :=
          [example_session\<lparr>ws_ended_at := Some 3, ws_is_active := False\<rparr>],
        workout_recommendations :=
          [\<lparr>rec_id = 1, rec_user_id = 1, rec_next_recommended_reps = 12,
            rec_updated_at = 3\<rparr>]\<rparr>"

text \<open>The ended store without its recommendation row, and the ended store of a workout
  in which only 5 of the 10 assigned reps were completed.\<close>

definition store_unrecommended :: database where
  "store_unrecommended = store_ended\<lparr>workout_recommendations := []\<rparr>"

definition store_missed :: database where
  "store_missed =
     store_ended
       \<lparr>exercises := [example_exercise\<lparr>ex_completed_reps := Some 5\<rparr>],
        workout_recommendations :=
          [\<lparr>rec_id = 1, rec_user_id = 1, rec_next_recommended_reps = 9,
            rec_updated_at = 3\<rparr>]\<rparr>"

definition example_history :: "(datetime \<times> request) list" where
  "example_history =
     [(0, CreateUser ''Ann'' None),
      (1, StartWorkout 1 \<lparr>assigned_reps = 10, exercise_name = None\<rparr>),
      (2, LogExercise 1 \<lparr>completed_reps = 10\<rparr>),
      (3, EndWorkout 1)]"

text \<open>
  A store with two users, reached by \<open>two_user_history\<close>. Ann (user 1) has ended two
  workouts: 10 of 10 reps from time 2 to time 4, then 5 of 12 reps from time 5 to time
  7, and has started a third at time 11. Bob (user 2) has ended one workout: 20 of 20
  reps from time 8 to time 10. Cy (user 3) has no session.
\<close>

definition two_user_history :: "(datetime \<times> request) list" where
  "two_user_history =
     [(0, CreateUser ''Ann'' None),
      (1, CreateUser ''Bob'' None),
      (1, CreateUser ''Cy'' None),
      (2, StartWorkout 1 \<lparr>assigned_reps = 10, exercise_name = None\<rparr>),
      (3, LogExercise 1 \<lparr>completed_reps = 10\<rparr>),
      (4, EndWorkout 1),
      (5, StartWorkout 1 \<lparr>assigned_reps = 12, exercise_name = Some ''Squats''\<rparr>),
      (6, LogExercise 2 \<lparr>completed_reps = 5\<rparr>),
      (7, EndWorkout 2),
      (8, StartWorkout 2 \<lparr>assigned_reps = 20, exercise_name = None\<rparr>),
      (9, LogExercise 3 \<lparr>completed_reps = 20\<rparr>),
      (10, EndWorkout 3),
      (11, StartWorkout 1 \<lparr>assigned_reps = 11, exercise_name = None\<rparr>)]"

definition store_two_users :: database where
  "store_two_users =
     \<lparr>users =
        [\<lparr>u_id = 1, u_name = ''Ann'', u_email = None, u_created_at = 0\<rparr>,
         \<lparr>u_id = 2, u_name = ''Bob'', u_email = None, u_created_at = 1\<rparr>,
         \<lparr>u_id = 3, u_name = ''Cy'', u_email = None, u_created_at = 1\<rparr>],
      workout_sessions =
        [\<lparr>ws_id = 1, ws_user_id = 1, ws_started_at = 2, ws_ended_at = Some 4,
          ws_is_active = False\<rparr>,
         \<lparr>ws_id = 2, ws_user_id = 1, ws_started_at = 5, ws_ended_at = Some 7,
          ws_is_active = False\<rparr>,
         \<lparr>ws_id = 3, ws_user_id = 2, ws_started_at = 8, ws_ended_at = Some 10,
          ws_is_active = False\<rparr>,
         \<lparr>ws_id = 4, ws_user_id = 1, ws_started_at = 11, ws_ended_at = None,
          ws_is_active = True\<rparr>],
      exercises =
        [\<lparr>ex_id = 1, ex_session_id = 1, ex_exercise_name = ''Push-ups'',
          ex_assigned_reps = 10, ex_completed_reps = Some 10, ex_created_at = 2\<rparr>,
         \<lparr>ex_id = 2, ex_session_id = 2, ex_exercise_name = ''Squats'',
          ex_assigned_reps = 12, ex_completed_reps = Some 5, ex_created_at = 5\<rparr>,
         \<lparr>ex_id = 3, ex_session_id = 3, ex_exercise_name = ''Push-ups'',
          ex_assigned_reps = 20, ex_completed_reps = Some 20, ex_created_at = 8\<rparr>,
         \<lparr>ex_id = 4, ex_session_id = 4, ex_exercise_name = ''Push-ups'',
          ex_assigned_reps = 11, ex_completed_reps = None, ex_created_at = 11\<rparr>],
      workout_recommendations =
        [\<lparr>rec_id = 1, rec_user_id = 1, rec_next_recommended_reps = 11,
          rec_updated_at = 7\<rparr>,
         \<lparr>rec_id = 2, rec_user_id = 2, rec_next_recommended_reps = 22,
          rec_updated_at = 10\<rparr>]\<rparr>"

text \<open>The store after a user started a workout of \<open>2 ^ 63 - 1\<close> assigned reps, the
  largest storable number, and logged as many completed reps.\<close>

definition store_largest :: database where
  "store_largest =
     store_started\<lparr>exercises :=
       [example_exercise\<lparr>ex_assigned_reps := 2 ^ 63 - 1,
                          ex_completed_reps := Some (2 ^ 63 - 1)\<rparr>]\<rparr>"

definition largest_history :: "(datetime \<times> request) list" where
  "largest_history =
     [(0, CreateUser ''Ann'' None),
      (1, StartWorkout 1 \<lparr>assigned_reps = 2 ^ 63 - 1, exercise_name = None\<rparr>),
      (2, LogExercise 1 \<lparr>completed_reps = 2 ^ 63 - 1\<rparr>)]"

section \<open>Properties of the recommendation rule\<close>

text \<open>
  Claim C1. For all integers \<open>a > 0\<close> and \<open>c \<ge> 0\<close>, \<open>calculate_next_reps a c\<close> is
  \<open>max 1 (if c \<ge> a then a + 2 else a - 1)\<close>: it is \<open>a + 2\<close> when the assigned reps were
  completed, \<open>a - 1\<close> floored at 1 otherwise, and never below 1.
\<close>

theorem calculate_next_reps_spec:
  assumes "a > 0" and "c \<ge> 0"
  shows "calculate_next_reps a c = max 1 (if c \<ge> a then a + 2 else a - 1)
       \<and> (c \<ge> a \<longrightarrow> calculate_next_reps a c = a + 2)
       \<and> (c < a \<longrightarrow> calculate_next_reps a c = max 1 (a - 1))
       \<and> calculate_next_reps a c \<ge> 1"
  using assms by (simp add: calculate_next_reps_def Let_def)

theorem calculate_next_reps_spec_witness:
  "calculate_next_reps 10 10 = 12
   \<and> calculate_next_reps 10 5 = 9
   \<and> calculate_next_reps 1 0 = 1"
  using calculate_next_reps_spec [of 10 10] calculate_next_reps_spec [of 10 5]
    calculate_next_reps_spec [of 1 0]
  by simp

section \<open>Auxiliary facts about queries and keys\<close>

lemma with_db_eq:
  "with_db f db = (fst (f (begin_txn db)), committed (snd (f (begin_txn db))))"
  by (simp add: with_db_def split: prod.splits)

lemma find_map_upd:
  assumes "\<And>x. P (g x) = P x"
  shows "find P (map (\<lambda>x. if Q x then g x else x) xs)
       = map_option (\<lambda>x. if Q x then g x else x) (find P xs)"
  using assms by (induction xs) auto

lemma find_append:
  "find P (xs @ ys) = (case find P xs of None \<Rightarrow> find P ys | Some x \<Rightarrow> Some x)"
  by (induction xs) auto

lemma fold_max_ge: "fold max xs (a::int) \<ge> a"
proof (induction xs arbitrary: a)
  case Nil then show ?case by simp
next
  case (Cons y ys)
  have "a \<le> max y a" by simp
  also have "max y a \<le> fold max ys (max y a)" by (rule Cons.IH)
  finally show ?case by simp
qed

lemma fold_max_mem: "x \<in> set xs \<Longrightarrow> x \<le> fold max xs (a::int)"
proof (induction xs arbitrary: a)
  case Nil then show ?case by simp
next
  case (Cons y ys)
  show ?case
  proof (cases "x = y")
    case True
    have "max y a \<le> fold max ys (max y a)" by (rule fold_max_ge)
    then show ?thesis using True by simp
  next
    case False
    then show ?thesis using Cons by simp
  qed
qed

lemma next_id_fresh: "x \<in> set ids \<Longrightarrow> x < next_id ids"
  using fold_max_mem[of x ids 0] by (simp add: next_id_def)

lemmas example_defs = example_user_def example_session_def example_exercise_def
  store_user_def store_started_def store_logged_def store_ended_def store_unrecommended_def
  store_missed_def store_largest_def empty_database_def

text \<open>The example stores are the stores the example history goes through.\<close>

lemmas serve_defs = with_db_def begin_txn_def commit_def storable_def
  create_user_def add_user_def next_id_def start_workout_def valid_WorkoutSessionCreate_def
  or_push_ups_def create_workout_session_def create_workout_session_check_def
  create_workout_session_write_def get_user_def add_workout_session_def
  add_exercise_def log_exercise_result_def valid_ExerciseLog_def log_exercise_def
  get_workout_session_def exercise_of_def update_exercise_def end_workout_def
  end_workout_session_def update_workout_session_def update_workout_recommendation_def
  add_workout_recommendation_def calculate_next_reps_def Let_def

lemma example_history_stores:
  "run (take 1 example_history) = store_user"
  "run (take 2 example_history) = store_started"
  "run (take 3 example_history) = store_logged"
  "run example_history = store_ended"
  by (simp_all add: example_history_def run_def example_defs serve_defs)

lemma two_user_history_store: "run two_user_history = store_two_users"
  by (simp add: two_user_history_def run_def store_two_users_def empty_database_def
      serve_defs)

lemma largest_history_store: "run largest_history = store_largest"
  by (simp add: largest_history_def run_def example_defs serve_defs)

section \<open>Ending a session\<close>

text \<open>
  Claim C3, as the code has it. \<open>end_workout\<close> on a session id that is storable: when
  no session has the id it fails with \<open>WorkoutSessionNotFoundException\<close> (404); when
  the session with the id is not active it fails with \<open>SessionNotActiveException\<close>
  (409); when it is active and the completed reps of its exercise, the first exercise
  row with its id as session id, are unset, it fails with
  \<open>ExerciseNotLoggedException\<close> (409), at every clock reading \<open>now\<close>. When the
  session is active, its exercise is logged and the store can hold the next
  recommended reps (and has a key for a recommendation row, if the user has none), the
  call succeeds: it returns the session with \<open>ended_at = now\<close> and
  \<open>is_active = False\<close>, as the store then holds it, and the next recommended reps
  computed from the exercise. It succeeds in no other case. A session id or next
  recommended reps that are not storable fail with \<open>OverflowError\<close> (500). Every
  failure leaves the store unchanged.
\<close>

theorem end_workout_outcomes:
  "(\<not> storable sid \<longrightarrow> end_workout now sid db = (Inl OverflowError, db))
   \<and> (storable sid \<and> (\<forall>s \<in> set (workout_sessions db). ws_id s \<noteq> sid) \<longrightarrow>
      end_workout now sid db = (Inl (WorkoutSessionNotFoundException sid), db))
   \<and> (\<forall>s. storable sid \<and> find (\<lambda>s. ws_id s = sid) (workout_sessions db) = Some s
          \<and> \<not> ws_is_active s \<longrightarrow>
      end_workout now sid db = (Inl (SessionNotActiveException sid), db))
   \<and> (\<forall>s e. storable sid \<and> find (\<lambda>s. ws_id s = sid) (workout_sessions db) = Some s
          \<and> ws_is_active s
          \<and> find (\<lambda>e. ex_session_id e = ws_id s) (exercises db) = Some e
          \<and> ex_completed_reps e = None \<longrightarrow>
      end_workout now sid db = (Inl (ExerciseNotLoggedException sid), db))
   \<and> (\<forall>s e c. storable sid \<and> find (\<lambda>s. ws_id s = sid) (workout_sessions db) = Some s
          \<and> ws_is_active s
          \<and> find (\<lambda>e. ex_session_id e = ws_id s) (exercises db) = Some e
          \<and> ex_completed_reps e = Some c
          \<and> storable (calculate_next_reps (ex_assigned_reps e) c)
          \<and> ((\<exists>r \<in> set (workout_recommendations db). rec_user_id r = ws_user_id s)
               \<or> storable (next_id (map rec_id (workout_recommendations db)))) \<longrightarrow>
      (\<exists>db'. end_workout now sid db =
               (Inr (s\<lparr>ws_ended_at := Some now, ws_is_active := False\<rparr>,
                     calculate_next_reps (ex_assigned_reps e) c), db')
            \<and> find (\<lambda>s. ws_id s = sid) (workout_sessions db')
                 = Some (s\<lparr>ws_ended_at := Some now, ws_is_active := False\<rparr>)
            \<and> exercises db' = exercises db \<and> users db' = users db))
   \<and> (\<forall>s e c. storable sid \<and> find (\<lambda>s. ws_id s = sid) (workout_sessions db) = Some s
          \<and> ws_is_active s
          \<and> find (\<lambda>e. ex_session_id e = ws_id s) (exercises db) = Some e
          \<and> ex_completed_reps e = Some c
          \<and> \<not> storable (calculate_next_reps (ex_assigned_reps e) c) \<longrightarrow>
      end_workout now sid db = (Inl OverflowError, db))
   \<and> (\<forall>s e c. storable sid \<and> find (\<lambda>s. ws_id s = sid) (workout_sessions db) = Some s
          \<and> ws_is_active s
          \<and> find (\<lambda>e. ex_session_id e = ws_id s) (exercises db) = Some e
          \<and> ex_completed_reps e = Some c
          \<and> storable (calculate_next_reps (ex_assigned_reps e) c)
          \<and> (\<forall>r \<in> set (workout_recommendations db). rec_user_id r \<noteq> ws_user_id s)
          \<and> \<not> storable (next_id (map rec_id (workout_recommendations db))) \<longrightarrow>
      end_workout now sid db = (Inl OperationalError, db))
   \<and> (\<forall>r db'. end_workout now sid db = (Inr r, db') \<longrightarrow>
        (\<exists>s e c. storable sid \<and> find (\<lambda>s. ws_id s = sid) (workout_sessions db) = Some s
          \<and> ws_is_active s
          \<and> find (\<lambda>e. ex_session_id e = ws_id s) (exercises db) = Some e
          \<and> ex_completed_reps e = Some c))
   \<and> status_code (WorkoutSessionNotFoundException sid) = 404
   \<and> status_code (SessionNotActiveException sid) = 409
   \<and> status_code (ExerciseNotLoggedException sid) = 409
   \<and> status_code OverflowError = 500"
proof -
  have nf: "find (\<lambda>s. ws_id s = sid) (workout_sessions db) = None"
    if "\<forall>s \<in> set (workout_sessions db). ws_id s \<noteq> sid"
    using that by (simp add: find_None_iff)
  have sid: "ws_id s = sid" if "find (\<lambda>s. ws_id s = sid) (workout_sessions db) = Some s" for s
    using that by (auto simp: find_Some_iff)
  have upd: "find (\<lambda>s. ws_id s = sid)
               (map (\<lambda>x. if ws_id x = sid
                          then x\<lparr>ws_ended_at := Some now, ws_is_active := False\<rparr> else x)
                  (workout_sessions db))
             = Some (s\<lparr>ws_ended_at := Some now, ws_is_active := False\<rparr>)"
    if "find (\<lambda>s. ws_id s = sid) (workout_sessions db) = Some s" for s
    using that sid[OF that] by (subst find_map_upd) simp_all
  have rec: "\<exists>r. find (\<lambda>r. rec_user_id r = u) (workout_recommendations db) = Some r"
    if "\<exists>r \<in> set (workout_recommendations db). rec_user_id r = u" for u
    using that by (cases "find (\<lambda>r. rec_user_id r = u) (workout_recommendations db)")
      (auto simp: find_None_iff)
  have norec: "find (\<lambda>r. rec_user_id r = u) (workout_recommendations db) = None"
    if "\<forall>r \<in> set (workout_recommendations db). rec_user_id r \<noteq> u" for u
    using that by (simp add: find_None_iff)
  show ?thesis
    apply (intro conjI allI impI)
    subgoal by (simp add: end_workout_def with_db_eq end_workout_session_def
          get_workout_session_def begin_txn_def)
    subgoal by (simp add: end_workout_def with_db_eq end_workout_session_def
          get_workout_session_def begin_txn_def nf)
    subgoal by (simp add: end_workout_def with_db_eq end_workout_session_def
          get_workout_session_def begin_txn_def)
    subgoal by (simp add: end_workout_def with_db_eq end_workout_session_def
          get_workout_session_def begin_txn_def exercise_of_def)
    subgoal for s e c
      using upd[of s] sid[of s] rec[of "ws_user_id s"]
      by (auto simp add: end_workout_def with_db_eq end_workout_session_def
          get_workout_session_def begin_txn_def Let_def commit_def exercise_of_def
          update_workout_session_def update_workout_recommendation_def
          add_workout_recommendation_def split: option.splits)
    subgoal for s e c
      by (simp add: end_workout_def with_db_eq end_workout_session_def
          get_workout_session_def begin_txn_def Let_def exercise_of_def
          update_workout_session_def)
    subgoal for s e c
      using norec[of "ws_user_id s"]
      by (simp add: end_workout_def with_db_eq end_workout_session_def
          get_workout_session_def begin_txn_def Let_def exercise_of_def
          update_workout_session_def)
    subgoal
      by (auto simp add: end_workout_def with_db_eq end_workout_session_def
          get_workout_session_def begin_txn_def Let_def exercise_of_def
          split: option.splits if_splits)
    by simp_all
qed


theorem end_workout_outcomes_witness:
  "end_workout 3 7 store_logged = (Inl (WorkoutSessionNotFoundException 7), store_logged)
   \<and> end_workout 9 1 store_ended = (Inl (SessionNotActiveException 1), store_ended)
   \<and> end_workout 1000000 1 store_started = (Inl (ExerciseNotLoggedException 1), store_started)
   \<and> (\<exists>db'. end_workout 3 1 store_logged =
         (Inr (example_session\<lparr>ws_ended_at := Some 3, ws_is_active := False\<rparr>, 12), db'))
   \<and> end_workout 12 2 store_two_users
       = (Inl (SessionNotActiveException 2), store_two_users)
   \<and> end_workout 12 4 store_two_users
       = (Inl (ExerciseNotLoggedException 4), store_two_users)"
proof -
  have 1: "end_workout 3 7 store_logged
             = (Inl (WorkoutSessionNotFoundException 7), store_logged)"
    using end_workout_outcomes [of 7 3 store_logged]
    by (simp add: example_defs storable_def)
  have 2: "end_workout 9 1 store_ended = (Inl (SessionNotActiveException 1), store_ended)"
    using end_workout_outcomes [of 1 9 store_ended]
    by (simp add: example_defs storable_def)
  have 3: "end_workout 1000000 1 store_started
             = (Inl (ExerciseNotLoggedException 1), store_started)"
    using end_workout_outcomes [of 1 1000000 store_started]
    by (simp add: example_defs storable_def)
  have 4: "\<exists>db'. end_workout 3 1 store_logged =
         (Inr (example_session\<lparr>ws_ended_at := Some 3, ws_is_active := False\<rparr>, 12), db')"
    using end_workout_outcomes [of 1 3 store_logged]
    by (auto simp add: example_defs storable_def next_id_def calculate_next_reps_def)
  have 5: "end_workout 12 2 store_two_users
             = (Inl (SessionNotActiveException 2), store_two_users)"
    using end_workout_outcomes [of 2 12 store_two_users]
    by (simp add: store_two_users_def storable_def)
  have 6: "end_workout 12 4 store_two_users
             = (Inl (ExerciseNotLoggedException 4), store_two_users)"
    using end_workout_outcomes [of 4 12 store_two_users]
    by (simp add: store_two_users_def storable_def)
  from 1 2 3 4 5 6 show ?thesis by blast
qed

text \<open>
  Claim C3, as the spec states it, promises \<open>NotFound\<close> for every id without a session
  and success for every active session with a logged exercise. For the session id
  \<open>2 ^ 70\<close>, which no session of \<open>store_started\<close> has, the lookup raises
  \<open>OverflowError\<close>; and ending the active, logged session of \<open>store_largest\<close>, whose
  next recommended reps would be \<open>2 ^ 63 + 1\<close>, raises \<open>OverflowError\<close> as well.
\<close>

theorem end_workout_overflow_counterexample:
  "find (\<lambda>s. ws_id s = 2 ^ 70) (workout_sessions store_started) = None
   \<and> end_workout 5 (2 ^ 70) store_started = (Inl OverflowError, store_started)
   \<and> OverflowError \<noteq> WorkoutSessionNotFoundException (2 ^ 70)
   \<and> find (\<lambda>s. ws_id s = 1) (workout_sessions store_largest) = Some example_session
   \<and> ws_is_active example_session
   \<and> map ex_completed_reps
        (filter (\<lambda>e. ex_session_id e = 1) (exercises store_largest)) = [Some (2 ^ 63 - 1)]
   \<and> end_workout 3 1 store_largest = (Inl OverflowError, store_largest)
   \<and> status_code OverflowError = 500"
  by (simp add: example_defs serve_defs)

section \<open>Starting a session\<close>

text \<open>
  Claim C4, as the code has it. \<open>start_workout\<close> checks the request body first: a body
  whose assigned reps are not positive, or whose exercise name is longer than 100
  characters, is answered with a validation error (422). For a body that passes and a
  storable user id, an unknown user id fails with \<open>UserNotFoundException\<close> (404), and
  a known user who has an active session fails with \<open>ActiveSessionExistsException\<close>
  (409) carrying the id of that active session. Otherwise, when the store can hold the
  assigned reps and has keys for the two rows, the call succeeds and the store gains
  exactly one session, active, of that user, started now, not ended, with a fresh id,
  and one exercise of that session with the assigned reps of the body and unset
  completed reps. A user id or assigned reps that are not storable fail with
  \<open>OverflowError\<close> (500). Every failure leaves the store unchanged.
\<close>

theorem start_workout_outcomes:
  "(assigned_reps w \<le> 0 \<or> (\<exists>n. exercise_name w = Some n \<and> 100 < length n) \<longrightarrow>
      start_workout now uid w db = (Inl RequestValidationError, db))
   \<and> (valid_WorkoutSessionCreate w \<longleftrightarrow>
        0 < assigned_reps w \<and> (\<forall>n. exercise_name w = Some n \<longrightarrow> length n \<le> 100))
   \<and> (valid_WorkoutSessionCreate w \<and> \<not> storable uid \<longrightarrow>
      start_workout now uid w db = (Inl OverflowError, db))
   \<and> (valid_WorkoutSessionCreate w \<and> storable uid
        \<and> (\<forall>u \<in> set (users db). u_id u \<noteq> uid) \<longrightarrow>
      start_workout now uid w db = (Inl (UserNotFoundException uid), db))
   \<and> (\<forall>a. valid_WorkoutSessionCreate w \<and> storable uid
          \<and> (\<exists>u \<in> set (users db). u_id u = uid)
          \<and> find (\<lambda>s. ws_user_id s = uid \<and> ws_is_active s) (workout_sessions db) = Some a \<longrightarrow>
      start_workout now uid w db = (Inl (ActiveSessionExistsException uid (ws_id a)), db)
      \<and> a \<in> set (workout_sessions db) \<and> ws_user_id a = uid \<and> ws_is_active a)
   \<and> (valid_WorkoutSessionCreate w \<and> storable uid
          \<and> (\<exists>u \<in> set (users db). u_id u = uid)
          \<and> (\<forall>s \<in> set (workout_sessions db). ws_user_id s = uid \<longrightarrow> \<not> ws_is_active s)
          \<and> storable (assigned_reps w)
          \<and> storable (next_id (map ws_id (workout_sessions db)))
          \<and> storable (next_id (map ex_id (exercises db))) \<longrightarrow>
      (\<exists>s e db'. start_workout now uid w db = (Inr s, db')
          \<and> ws_user_id s = uid \<and> ws_is_active s \<and> ws_started_at s = now \<and> ws_ended_at s = None
          \<and> ws_id s \<notin> ws_id ` set (workout_sessions db)
          \<and> ex_session_id e = ws_id s \<and> ex_assigned_reps e = assigned_reps w
          \<and> ex_exercise_name e = or_push_ups (exercise_name w)
          \<and> ex_completed_reps e = None
          \<and> db' = db\<lparr>workout_sessions := workout_sessions db @ [s],
                      exercises := exercises db @ [e]\<rparr>))
   \<and> (valid_WorkoutSessionCreate w \<and> storable uid
          \<and> (\<exists>u \<in> set (users db). u_id u = uid)
          \<and> (\<forall>s \<in> set (workout_sessions db). ws_user_id s = uid \<longrightarrow> \<not> ws_is_active s)
          \<and> storable (next_id (map ws_id (workout_sessions db)))
          \<and> \<not> storable (assigned_reps w) \<longrightarrow>
      start_workout now uid w db = (Inl OverflowError, db))
   \<and> (valid_WorkoutSessionCreate w \<and> storable uid
          \<and> (\<exists>u \<in> set (users db). u_id u = uid)
          \<and> (\<forall>s \<in> set (workout_sessions db). ws_user_id s = uid \<longrightarrow> \<not> ws_is_active s)
          \<and> (\<not> storable (next_id (map ws_id (workout_sessions db)))
               \<or> storable (assigned_reps w)
                  \<and> \<not> storable (next_id (map ex_id (exercises db)))) \<longrightarrow>
      start_workout now uid w db = (Inl OperationalError, db))
   \<and> status_code (UserNotFoundException uid) = 404
   \<and> status_code RequestValidationError = 422
   \<and> (\<forall>a. status_code (ActiveSessionExistsException uid a) = 409)
   \<and> status_code OverflowError = 500"
proof -
  have nu: "find (\<lambda>u. u_id u = uid) (users db) = None"
    if "\<forall>u \<in> set (users db). u_id u \<noteq> uid"
    using that by (simp add: find_None_iff)
  have su: "\<exists>u. find (\<lambda>u. u_id u = uid) (users db) = Some u"
    if "\<exists>u \<in> set (users db). u_id u = uid"
    using that by (cases "find (\<lambda>u. u_id u = uid) (users db)") (auto simp: find_None_iff)
  have na: "find (\<lambda>s. ws_user_id s = uid \<and> ws_is_active s) (workout_sessions db) = None"
    if "\<forall>s \<in> set (workout_sessions db). ws_user_id s = uid \<longrightarrow> \<not> ws_is_active s"
    using that by (simp add: find_None_iff)
  have fresh: "next_id (map ws_id (workout_sessions db)) \<notin> ws_id ` set (workout_sessions db)"
    using next_id_fresh[of _ "map ws_id (workout_sessions db)"] by fastforce
  note defs = start_workout_def with_db_eq create_workout_session_def
    create_workout_session_check_def create_workout_session_write_def get_user_def
    begin_txn_def Let_def
  show ?thesis
    apply (intro conjI allI impI)
    subgoal by (auto simp add: start_workout_def valid_WorkoutSessionCreate_def)
    subgoal by (auto simp add: valid_WorkoutSessionCreate_def split: option.splits)
    subgoal by (simp add: defs)
    subgoal by (simp add: defs nu)
    subgoal for a using su by (auto simp add: defs)
    subgoal for a by (auto simp: find_Some_iff)
    subgoal for a by (auto simp: find_Some_iff)
    subgoal for a by (auto simp: find_Some_iff)
    subgoal
    proof -
      assume h: "valid_WorkoutSessionCreate w \<and> storable uid
          \<and> (\<exists>u \<in> set (users db). u_id u = uid)
          \<and> (\<forall>s \<in> set (workout_sessions db). ws_user_id s = uid \<longrightarrow> \<not> ws_is_active s)
          \<and> storable (assigned_reps w)
          \<and> storable (next_id (map ws_id (workout_sessions db)))
          \<and> storable (next_id (map ex_id (exercises db)))"
      define s where "s = \<lparr>ws_id = next_id (map ws_id (workout_sessions db)),
          ws_user_id = uid, ws_started_at = now, ws_ended_at = None, ws_is_active = True\<rparr>"
      define e where "e = \<lparr>ex_id = next_id (map ex_id (exercises db)),
          ex_session_id = ws_id s, ex_exercise_name = or_push_ups (exercise_name w),
          ex_assigned_reps = assigned_reps w, ex_completed_reps = None, ex_created_at = now\<rparr>"
      from h su obtain u where u: "find (\<lambda>u. u_id u = uid) (users db) = Some u" by blast
      have "start_workout now uid w db =
              (Inr s, db\<lparr>workout_sessions := workout_sessions db @ [s],
                          exercises := exercises db @ [e]\<rparr>)"
        using h u na
        by (simp add: defs commit_def add_workout_session_def add_exercise_def s_def e_def)
      moreover have "ws_id s \<notin> ws_id ` set (workout_sessions db)"
        using fresh by (simp add: s_def)
      ultimately show ?thesis
        by (intro exI[of _ s] exI[of _ e]) (simp add: s_def e_def)
    qed
    subgoal using su na
      by (auto simp add: defs add_workout_session_def)
    subgoal using su na
      by (auto simp add: defs add_workout_session_def)
    by simp_all
qed

theorem start_workout_outcomes_witness:
  "start_workout 5 1 \<lparr>assigned_reps = 0, exercise_name = None\<rparr> store_ended
     = (Inl RequestValidationError, store_ended)
   \<and> start_workout 5 9 \<lparr>assigned_reps = 12, exercise_name = None\<rparr> store_ended
     = (Inl (UserNotFoundException 9), store_ended)
   \<and> start_workout 5 1 \<lparr>assigned_reps = 12, exercise_name = None\<rparr> store_logged
     = (Inl (ActiveSessionExistsException 1 1), store_logged)
   \<and> start_workout 12 1 \<lparr>assigned_reps = 12, exercise_name = None\<rparr> store_two_users
     = (Inl (ActiveSessionExistsException 1 4), store_two_users)
   \<and> (\<exists>s e db'. start_workout 5 1 \<lparr>assigned_reps = 12, exercise_name = None\<rparr> store_ended
                   = (Inr s, db')
        \<and> ws_user_id s = 1 \<and> ws_is_active s \<and> ws_id s \<noteq> 1
        \<and> ex_session_id e = ws_id s \<and> ex_assigned_reps e = 12 \<and> ex_completed_reps e = None
        \<and> exercises db' = exercises store_ended @ [e])"
proof -
  let ?w = "\<lparr>assigned_reps = 12, exercise_name = None\<rparr>"
  have v: "valid_WorkoutSessionCreate ?w"
    by (simp add: valid_WorkoutSessionCreate_def)
  have 1: "start_workout 5 1 \<lparr>assigned_reps = 0, exercise_name = None\<rparr> store_ended
             = (Inl RequestValidationError, store_ended)"
    using start_workout_outcomes [where w = "\<lparr>assigned_reps = 0, exercise_name = None\<rparr>"
        and db = store_ended and now = 5 and uid = 1]
    by simp
  have 2: "start_workout 5 9 ?w store_ended = (Inl (UserNotFoundException 9), store_ended)"
    using v start_workout_outcomes [where w = ?w and db = store_ended and now = 5 and uid = 9]
    by (simp add: example_defs storable_def)
  have 3: "start_workout 5 1 ?w store_logged
             = (Inl (ActiveSessionExistsException 1 1), store_logged)"
    using v start_workout_outcomes [where w = ?w and db = store_logged and now = 5 and uid = 1]
    by (simp add: example_defs storable_def)
  have 5: "start_workout 12 1 ?w store_two_users
             = (Inl (ActiveSessionExistsException 1 4), store_two_users)"
    using v start_workout_outcomes [where w = ?w and db = store_two_users and now = 12
        and uid = 1]
    by (simp add: store_two_users_def storable_def)
  have 4: "\<exists>s e db'. start_workout 5 1 ?w store_ended = (Inr s, db')
        \<and> ws_user_id s = 1 \<and> ws_is_active s \<and> ws_id s \<noteq> 1
        \<and> ex_session_id e = ws_id s \<and> ex_assigned_reps e = 12 \<and> ex_completed_reps e = None
        \<and> exercises db' = exercises store_ended @ [e]"
  proof -
    have "\<exists>s e db'. start_workout 5 1 ?w store_ended = (Inr s, db')
          \<and> ws_user_id s = 1 \<and> ws_is_active s \<and> ws_started_at s = 5 \<and> ws_ended_at s = None
          \<and> ws_id s \<notin> ws_id ` set (workout_sessions store_ended)
          \<and> ex_session_id e = ws_id s \<and> ex_assigned_reps e = assigned_reps ?w
          \<and> ex_exercise_name e = or_push_ups (exercise_name ?w)
          \<and> ex_completed_reps e = None
          \<and> db' = store_ended\<lparr>workout_sessions := workout_sessions store_ended @ [s],
                      exercises := exercises store_ended @ [e]\<rparr>"
      using v start_workout_outcomes [where w = ?w and db = store_ended and now = 5 and uid = 1]
      by (simp add: example_defs storable_def next_id_def)
    then obtain s e db' where "start_workout 5 1 ?w store_ended = (Inr s, db')"
      "ws_user_id s = 1" "ws_is_active s"
      "ws_id s \<notin> ws_id ` set (workout_sessions store_ended)"
      "ex_session_id e = ws_id s" "ex_assigned_reps e = assigned_reps ?w"
      "ex_completed_reps e = None"
      "db' = store_ended\<lparr>workout_sessions := workout_sessions store_ended @ [s],
                      exercises := exercises store_ended @ [e]\<rparr>"
      by blast
    then show ?thesis
      by (intro exI[of _ s] exI[of _ e] exI[of _ db']) (simp add: example_defs)
  qed
  from 1 2 3 4 5 show ?thesis by blast
qed

text \<open>
  Claim C4, as the spec states it, names non-positive assigned reps as the only
  validation failure, promises \<open>NotFound\<close> for every user id without a user, and lets
  every other request of a known user without an active session create a session. A
  body with 12 assigned reps and an exercise name of 101 characters, for user 1 of
  \<open>store_ended\<close>, who has no active session, is rejected with a validation error; a
  body with \<open>2 ^ 63\<close> assigned reps for the same user, and the user id \<open>2 ^ 70\<close>,
  which no user has, both raise \<open>OverflowError\<close>. No session is created.
\<close>

theorem start_workout_long_name_counterexample:
  "assigned_reps \<lparr>assigned_reps = 12, exercise_name = Some (replicate 101 CHR ''a'')\<rparr> > 0
   \<and> (\<exists>u \<in> set (users store_ended). u_id u = 1)
   \<and> active_sessions store_ended 1 = []
   \<and> start_workout 5 1 \<lparr>assigned_reps = 12, exercise_name = Some (replicate 101 CHR ''a'')\<rparr>
         store_ended
       = (Inl RequestValidationError, store_ended)
   \<and> start_workout 5 1 \<lparr>assigned_reps = 2 ^ 63, exercise_name = None\<rparr> store_ended
       = (Inl OverflowError, store_ended)
   \<and> find (\<lambda>u. u_id u = 2 ^ 70) (users store_ended) = None
   \<and> start_workout 5 (2 ^ 70) \<lparr>assigned_reps = 12, exercise_name = None\<rparr> store_ended
       = (Inl OverflowError, store_ended)"
  by (simp add: example_defs active_sessions_def serve_defs)

section \<open>What the two writing operations return and commit\<close>

lemma with_db_cases:
  obtains r t' where "f (begin_txn db) = (r, t')" "with_db f db = (r, committed t')"
  by (cases "f (begin_txn db)") (simp add: with_db_def)

lemma end_workout_session_Inl:
  "end_workout_session now sid t = (Inl e, t') \<Longrightarrow> committed t' = committed t"
  by (auto simp add: end_workout_session_def Let_def update_workout_session_def
      split: sum.splits option.splits if_splits)

lemma end_workout_session_Inr:
  assumes run: "end_workout_session now sid t = (Inr (s, n), t')"
  obtains s0 ex c where
    "storable sid"
    "find (\<lambda>x. ws_id x = sid) (workout_sessions (pending t)) = Some s0"
    "ws_is_active s0"
    "find (\<lambda>e. ex_session_id e = ws_id s0) (exercises (pending t)) = Some ex"
    "ex_completed_reps ex = Some c"
    "s = s0\<lparr>ws_ended_at := Some now, ws_is_active := False\<rparr>"
    "n = calculate_next_reps (ex_assigned_reps ex) c"
    "storable n"
    "committed t' = pending t'"
    "workout_sessions (pending t')
       = map (\<lambda>x. if ws_id x = sid then x\<lparr>ws_ended_at := Some now, ws_is_active := False\<rparr>
                   else x) (workout_sessions (pending t))"
    "exercises (pending t') = exercises (pending t)"
    "users (pending t') = users (pending t)"
    "\<exists>r. find (\<lambda>r. rec_user_id r = ws_user_id s0) (workout_recommendations (pending t'))
            = Some r \<and> rec_next_recommended_reps r = n"
proof -
  obtain s0 ex c where st: "storable sid"
    and s0: "find (\<lambda>s. ws_id s = sid) (workout_sessions (pending t)) = Some s0"
    and act: "ws_is_active s0"
    and ex: "find (\<lambda>e. ex_session_id e = ws_id s0) (exercises (pending t)) = Some ex"
    and c: "ex_completed_reps ex = Some c"
    using run
    by (auto simp add: end_workout_session_def get_workout_session_def exercise_of_def Let_def
        split: option.splits if_splits)
  let ?n = "calculate_next_reps (ex_assigned_reps ex) c"
  let ?P = "\<lambda>r. rec_user_id r = ws_user_id s0"
  have sid: "ws_id s0 = sid" using s0 by (auto simp: find_Some_iff)
  have sn: "s = s0\<lparr>ws_ended_at := Some now, ws_is_active := False\<rparr>" "n = ?n" "storable n"
    using run st s0 act ex c
    by (auto simp add: end_workout_session_def get_workout_session_def exercise_of_def Let_def
        split: option.splits if_splits)
  have rest: "committed t' = pending t'
    \<and> workout_sessions (pending t')
       = map (\<lambda>x. if ws_id x = sid then x\<lparr>ws_ended_at := Some now, ws_is_active := False\<rparr>
                   else x) (workout_sessions (pending t))
    \<and> exercises (pending t') = exercises (pending t)
    \<and> users (pending t') = users (pending t)
    \<and> (\<exists>r. find ?P (workout_recommendations (pending t')) = Some r
            \<and> rec_next_recommended_reps r = n)"
  proof (cases "find ?P (workout_recommendations (pending t))")
    case None
    then have app: "find ?P (workout_recommendations (pending t) @ [x])
                      = (if ?P x then Some x else None)" for x
      by (simp add: find_append)
    show ?thesis using run st s0 act ex c None sn app sid
      by (auto simp add: end_workout_session_def get_workout_session_def exercise_of_def
          Let_def commit_def update_workout_session_def add_workout_recommendation_def
          split: if_splits)
  next
    case (Some r0)
    have "find ?P (map (\<lambda>r. if rec_id r = rec_id r0
              then r\<lparr>rec_next_recommended_reps := ?n, rec_updated_at := now\<rparr> else r)
            (workout_recommendations (pending t)))
        = Some (r0\<lparr>rec_next_recommended_reps := ?n, rec_updated_at := now\<rparr>)"
      using Some by (subst find_map_upd) simp_all
    then show ?thesis using run st s0 act ex c Some sn sid
      by (auto simp add: end_workout_session_def get_workout_session_def exercise_of_def
          Let_def commit_def update_workout_session_def update_workout_recommendation_def
          split: if_splits)
  qed
  show ?thesis
    using that[OF st s0 act ex c sn] rest by blast
qed

lemma create_workout_session_Inl:
  "create_workout_session now uid reps name t = (Inl e, t') \<Longrightarrow> committed t' = committed t"
  by (auto simp add: create_workout_session_def create_workout_session_write_def Let_def
      add_workout_session_def split: sum.splits if_splits)

lemma create_workout_session_Inr:
  assumes run: "create_workout_session now uid reps name t = (Inr s, t')"
  obtains u ex where
    "storable uid" "find (\<lambda>u. u_id u = uid) (users (pending t)) = Some u"
    "find (\<lambda>s. ws_user_id s = uid \<and> ws_is_active s) (workout_sessions (pending t)) = None"
    "s = \<lparr>ws_id = next_id (map ws_id (workout_sessions (pending t))), ws_user_id = uid,
          ws_started_at = now, ws_ended_at = None, ws_is_active = True\<rparr>"
    "ex = \<lparr>ex_id = next_id (map ex_id (exercises (pending t))), ex_session_id = ws_id s,
           ex_exercise_name = name, ex_assigned_reps = reps, ex_completed_reps = None,
           ex_created_at = now\<rparr>"
    "storable (ws_id s)" "storable reps" "storable (ex_id ex)"
    "committed t' = pending t'"
    "pending t' = (pending t)\<lparr>workout_sessions := workout_sessions (pending t) @ [s],
                               exercises := exercises (pending t) @ [ex]\<rparr>"
proof -
  let ?s = "\<lparr>ws_id = next_id (map ws_id (workout_sessions (pending t))), ws_user_id = uid,
          ws_started_at = now, ws_ended_at = None, ws_is_active = True\<rparr>"
  let ?ex = "\<lparr>ex_id = next_id (map ex_id (exercises (pending t))), ex_session_id = ws_id ?s,
           ex_exercise_name = name, ex_assigned_reps = reps, ex_completed_reps = None,
           ex_created_at = now\<rparr>"
  from run obtain u where chk: "create_workout_session_check (pending t) uid = Inr u"
    and wr: "create_workout_session_write now uid reps name t = (Inr s, t')"
    by (auto simp add: create_workout_session_def split: sum.splits)
  from chk have a: "storable uid" "find (\<lambda>u. u_id u = uid) (users (pending t)) = Some u"
    "find (\<lambda>s. ws_user_id s = uid \<and> ws_is_active s) (workout_sessions (pending t)) = None"
    by (auto simp add: create_workout_session_check_def get_user_def
        split: if_splits option.splits sum.splits)
  from wr have b: "s = ?s" "storable (ws_id ?s)" "storable reps" "storable (ex_id ?ex)"
    "committed t' = pending t'"
    "pending t' = (pending t)\<lparr>workout_sessions := workout_sessions (pending t) @ [?s],
                               exercises := exercises (pending t) @ [?ex]\<rparr>"
    by (auto simp add: create_workout_session_write_def Let_def commit_def
        add_workout_session_def add_exercise_def split: if_splits)
  show ?thesis
    by (rule that[of u ?ex]) (use a b in simp_all)
qed

section \<open>The returned and the stored recommendation\<close>

text \<open>
  Claim C10. When \<open>end_workout\<close> succeeds, returning a session and a number of next
  recommended reps, the recommendation row that the store then holds for the user of
  that session (the row \<open>get_recommendation\<close> reads) carries exactly that number.
\<close>

theorem end_workout_returns_stored_recommendation:
  assumes "end_workout now sid db = (Inr (s, n), db')"
  shows "\<exists>r. find (\<lambda>r. rec_user_id r = ws_user_id s) (workout_recommendations db') = Some r
            \<and> rec_next_recommended_reps r = n"
proof -
  obtain t' where run: "end_workout_session now sid (begin_txn db) = (Inr (s, n), t')"
    and db': "db' = committed t'"
    using assms by (auto simp add: end_workout_def with_db_def split: prod.splits)
  show ?thesis
  proof (rule end_workout_session_Inr[OF run])
    fix s0
    assume "s = s0\<lparr>ws_ended_at := Some now, ws_is_active := False\<rparr>"
      and "committed t' = pending t'"
      and "\<exists>r. find (\<lambda>r. rec_user_id r = ws_user_id s0) (workout_recommendations (pending t'))
            = Some r \<and> rec_next_recommended_reps r = n"
    then show ?thesis using db' by simp
  qed
qed

theorem end_workout_returns_stored_recommendation_witness:
  "\<exists>r. end_workout 3 1 store_logged
          = (Inr (example_session\<lparr>ws_ended_at := Some 3, ws_is_active := False\<rparr>, 12),
             store_ended)
       \<and> find (\<lambda>r. rec_user_id r = 1) (workout_recommendations store_ended) = Some r
       \<and> rec_next_recommended_reps r = 12"
proof -
  have run: "end_workout 3 1 store_logged
          = (Inr (example_session\<lparr>ws_ended_at := Some 3, ws_is_active := False\<rparr>, 12),
             store_ended)"
    by (simp add: example_defs serve_defs)
  from end_workout_returns_stored_recommendation [OF run]
  show ?thesis using run by (simp add: example_defs)
qed

section \<open>What a request changes in the store\<close>

lemma create_user_effect:
  "snd (with_db (create_user now name email) db) = db
   \<or> (\<exists>u. storable (u_id u) \<and> snd (with_db (create_user now name email) db)
              = db\<lparr>users := users db @ [u]\<rparr>)"
proof (cases "storable (next_id (map u_id (users db)))")
  case False
  then show ?thesis
    by (simp add: with_db_eq create_user_def Let_def begin_txn_def)
next
  case True
  let ?u = "\<lparr>u_id = next_id (map u_id (users db)), u_name = name, u_email = email,
             u_created_at = now\<rparr>"
  have "storable (u_id ?u) \<and> snd (with_db (create_user now name email) db)
          = db\<lparr>users := users db @ [?u]\<rparr>"
    using True
    by (simp add: with_db_eq create_user_def Let_def commit_def add_user_def begin_txn_def)
  then show ?thesis by blast
qed

lemma start_workout_effect:
  "snd (start_workout now u w db) = db
   \<or> (\<exists>s e. find (\<lambda>s. ws_user_id s = u \<and> ws_is_active s) (workout_sessions db) = None
          \<and> ws_id s = next_id (map ws_id (workout_sessions db))
          \<and> ws_user_id s = u \<and> ws_is_active s \<and> ex_session_id e = ws_id s
          \<and> snd (start_workout now u w db)
              = db\<lparr>workout_sessions := workout_sessions db @ [s],
                    exercises := exercises db @ [e]\<rparr>)"
proof (cases "valid_WorkoutSessionCreate w")
  case False
  then show ?thesis by (simp add: start_workout_def)
next
  case True
  let ?f = "create_workout_session now u (assigned_reps w) (or_push_ups (exercise_name w))"
  obtain r t' where rt: "?f (begin_txn db) = (r, t')"
    and w: "with_db ?f db = (r, committed t')"
    by (rule with_db_cases)
  show ?thesis
  proof (cases r)
    case (Inl e)
    with rt have "committed t' = db"
      using create_workout_session_Inl[of now u _ _ "begin_txn db" e t']
      by (simp add: begin_txn_def)
    then show ?thesis using True w by (simp add: start_workout_def)
  next
    case (Inr s)
    show ?thesis
    proof (rule create_workout_session_Inr[OF rt[unfolded Inr]])
      fix ex
      assume "find (\<lambda>s. ws_user_id s = u \<and> ws_is_active s)
                (workout_sessions (pending (begin_txn db))) = None"
        and "s = \<lparr>ws_id = next_id (map ws_id (workout_sessions (pending (begin_txn db)))),
                   ws_user_id = u, ws_started_at = now, ws_ended_at = None,
                   ws_is_active = True\<rparr>"
        and "ex = \<lparr>ex_id = next_id (map ex_id (exercises (pending (begin_txn db)))),
                    ex_session_id = ws_id s,
                    ex_exercise_name = or_push_ups (exercise_name w),
                    ex_assigned_reps = assigned_reps w, ex_completed_reps = None,
                    ex_created_at = now\<rparr>"
        and "committed t' = pending t'"
        and "pending t' = (pending (begin_txn db))
               \<lparr>workout_sessions := workout_sessions (pending (begin_txn db)) @ [s],
                exercises := exercises (pending (begin_txn db)) @ [ex]\<rparr>"
      then have "find (\<lambda>s. ws_user_id s = u \<and> ws_is_active s) (workout_sessions db) = None
          \<and> ws_id s = next_id (map ws_id (workout_sessions db))
          \<and> ws_user_id s = u \<and> ws_is_active s \<and> ex_session_id ex = ws_id s
          \<and> snd (start_workout now u w db)
              = db\<lparr>workout_sessions := workout_sessions db @ [s],
                    exercises := exercises db @ [ex]\<rparr>"
        using True w by (simp add: start_workout_def begin_txn_def)
      then show ?thesis by blast
    qed
  qed
qed

lemma log_exercise_result_effect:
  "snd (log_exercise_result sid l db) = db
   \<or> (\<exists>pk. snd (log_exercise_result sid l db)
        = db\<lparr>exercises :=
               map (\<lambda>e. if ex_id e = pk then e\<lparr>ex_completed_reps := Some (completed_reps l)\<rparr>
                         else e) (exercises db)\<rparr>)"
  by (auto simp add: log_exercise_result_def with_db_eq log_exercise_def begin_txn_def
      Let_def commit_def update_exercise_def split: sum.splits option.splits)

lemma end_workout_effect:
  "snd (end_workout now sid db) = db
   \<or> (\<exists>s0 ex c. find (\<lambda>s. ws_id s = sid) (workout_sessions db) = Some s0
          \<and> find (\<lambda>e. ex_session_id e = ws_id s0) (exercises db) = Some ex
          \<and> ex_completed_reps ex = Some c
          \<and> workout_sessions (snd (end_workout now sid db))
              = map (\<lambda>x. if ws_id x = sid
                          then x\<lparr>ws_ended_at := Some now, ws_is_active := False\<rparr> else x)
                  (workout_sessions db)
          \<and> exercises (snd (end_workout now sid db)) = exercises db
          \<and> users (snd (end_workout now sid db)) = users db)"
proof -
  obtain r t' where rt: "end_workout_session now sid (begin_txn db) = (r, t')"
    and w: "with_db (end_workout_session now sid) db = (r, committed t')"
    by (rule with_db_cases)
  show ?thesis
  proof (cases r)
    case (Inl e)
    with rt have "committed t' = db"
      using end_workout_session_Inl[of now sid "begin_txn db" e t']
      by (simp add: begin_txn_def)
    then show ?thesis using w by (simp add: end_workout_def)
  next
    case (Inr sn)
    obtain s n where sn: "sn = (s, n)" by (cases sn)
    show ?thesis
    proof (rule end_workout_session_Inr[OF rt[unfolded Inr sn]])
      fix s0 ex c
      assume "find (\<lambda>x. ws_id x = sid) (workout_sessions (pending (begin_txn db))) = Some s0"
        and "find (\<lambda>e. ex_session_id e = ws_id s0) (exercises (pending (begin_txn db)))
               = Some ex"
        and "ex_completed_reps ex = Some c"
        and "committed t' = pending t'"
        and "workout_sessions (pending t')
               = map (\<lambda>x. if ws_id x = sid
                           then x\<lparr>ws_ended_at := Some now, ws_is_active := False\<rparr> else x)
                   (workout_sessions (pending (begin_txn db)))"
        and "exercises (pending t') = exercises (pending (begin_txn db))"
        and "users (pending t') = users (pending (begin_txn db))"
      then have "find (\<lambda>s. ws_id s = sid) (workout_sessions db) = Some s0
          \<and> find (\<lambda>e. ex_session_id e = ws_id s0) (exercises db) = Some ex
          \<and> ex_completed_reps ex = Some c
          \<and> workout_sessions (snd (end_workout now sid db))
              = map (\<lambda>x. if ws_id x = sid
                          then x\<lparr>ws_ended_at := Some now, ws_is_active := False\<rparr> else x)
                  (workout_sessions db)
          \<and> exercises (snd (end_workout now sid db)) = exercises db
          \<and> users (snd (end_workout now sid db)) = users db"
        using w by (simp add: end_workout_def begin_txn_def)
      then show ?thesis by blast
    qed
  qed
qed

section \<open>At most one active session per user\<close>

text \<open>Served one after the other, the requests keep the active sessions of every user
  at one or none.\<close>

lemma find_None_filter: "find P xs = None \<Longrightarrow> filter P xs = []"
  by (induction xs) (auto split: if_splits)

lemma length_filter_deactivate:
  "length (filter (\<lambda>s. ws_user_id s = uid \<and> ws_is_active s)
      (map (\<lambda>s. if Q s then s\<lparr>ws_ended_at := x, ws_is_active := False\<rparr> else s) xs))
   \<le> length (filter (\<lambda>s. ws_user_id s = uid \<and> ws_is_active s) xs)"
  by (induction xs) auto

lemma active_create_user:
  "active_sessions (snd (with_db (create_user now name email) db)) uid = active_sessions db uid"
  using create_user_effect[of now name email db]
  by (auto simp add: active_sessions_def)

lemma active_start_workout:
  assumes "length (active_sessions db uid) \<le> 1"
  shows "length (active_sessions (snd (start_workout now u w db)) uid) \<le> 1"
  using start_workout_effect[of now u w db]
proof
  assume "snd (start_workout now u w db) = db"
  then show ?thesis using assms by simp
next
  assume "\<exists>s e. find (\<lambda>s. ws_user_id s = u \<and> ws_is_active s) (workout_sessions db) = None
          \<and> ws_id s = next_id (map ws_id (workout_sessions db))
          \<and> ws_user_id s = u \<and> ws_is_active s \<and> ex_session_id e = ws_id s
          \<and> snd (start_workout now u w db)
              = db\<lparr>workout_sessions := workout_sessions db @ [s],
                    exercises := exercises db @ [e]\<rparr>"
  then obtain s e where
    none: "find (\<lambda>s. ws_user_id s = u \<and> ws_is_active s) (workout_sessions db) = None"
    and s: "ws_user_id s = u"
    and eq: "snd (start_workout now u w db)
              = db\<lparr>workout_sessions := workout_sessions db @ [s],
                    exercises := exercises db @ [e]\<rparr>"
    by blast
  show ?thesis
  proof (cases "u = uid")
    case True
    then show ?thesis using find_None_filter[OF none] s eq
      by (simp add: active_sessions_def)
  next
    case False
    then show ?thesis using assms s by (simp add: eq active_sessions_def)
  qed
qed

lemma active_log_exercise_result:
  "active_sessions (snd (log_exercise_result sid l db)) uid = active_sessions db uid"
  using log_exercise_result_effect[of sid l db]
  by (auto simp add: active_sessions_def)

lemma active_end_workout:
  assumes "length (active_sessions db uid) \<le> 1"
  shows "length (active_sessions (snd (end_workout now sid db)) uid) \<le> 1"
proof -
  have "length (active_sessions (snd (end_workout now sid db)) uid)
        \<le> length (active_sessions db uid)"
    using end_workout_effect[of now sid db]
      length_filter_deactivate[of uid "\<lambda>x. ws_id x = sid" "Some now" "workout_sessions db"]
    by (auto simp add: active_sessions_def)
  then show ?thesis using assms by simp
qed

lemma active_serve:
  assumes "length (active_sessions db uid) \<le> 1"
  shows "length (active_sessions (serve q db) uid) \<le> 1"
proof -
  obtain now r where q: "q = (now, r)" by (cases q)
  show ?thesis
  proof (cases r)
    case (CreateUser name email)
    then show ?thesis using assms active_create_user by (simp add: q)
  next
    case (StartWorkout u w)
    then show ?thesis using active_start_workout[OF assms] by (simp add: q)
  next
    case (LogExercise sid l)
    then show ?thesis using assms active_log_exercise_result by (simp add: q)
  next
    case (EndWorkout sid)
    then show ?thesis using active_end_workout[OF assms] by (simp add: q)
  qed
qed

lemma active_fold_serve:
  "length (active_sessions db uid) \<le> 1 \<Longrightarrow>
   length (active_sessions (fold serve history db) uid) \<le> 1"
proof (induction history arbitrary: db)
  case Nil
  then show ?case by simp
next
  case (Cons q history)
  from Cons.prems have "length (active_sessions (serve q db) uid) \<le> 1"
    by (rule active_serve)
  then have "length (active_sessions (fold serve history (serve q db)) uid) \<le> 1"
    by (rule Cons.IH)
  then show ?case by simp
qed

lemma sequential_at_most_one_active_session:
  "length (active_sessions (run history) uid) \<le> 1"
proof -
  have "length (active_sessions empty_database uid) \<le> 1"
    by (simp add: active_sessions_def empty_database_def)
  then show ?thesis unfolding run_def by (rule active_fold_serve)
qed

text \<open>Served alone, \<open>create_workout_session\<close> is its read part followed by its write
  part on the same store.\<close>

lemma create_workout_session_parts:
  "create_workout_session now uid reps name (begin_txn db)
     = (case create_workout_session_check db uid of
          Inl e \<Rightarrow> (Inl e, begin_txn db)
        | Inr _ \<Rightarrow> create_workout_session_write now uid reps name (begin_txn db))"
  by (simp add: create_workout_session_def begin_txn_def split: sum.splits)

text \<open>
  Claim C5. The invariant does not hold in every state the code reaches: when two
  \<open>create_workout_session\<close> calls for the same user overlap, both reads find no
  active session, both writes are committed, and the user has two active sessions.
  Here user 1 of \<open>store_user\<close>, a store that one request reaches and in which the user
  has no session, starts a workout twice, at times 1 and 2.
\<close>

theorem overlapped_starts_leave_two_active_sessions:
  "store_user = run [(0, CreateUser ''Ann'' None)]
   \<and> active_sessions store_user 1 = []
   \<and> overlapped_create_workout_sessions 1 1 10 ''Push-ups'' 2 1 10 ''Push-ups'' store_user
      = ((Inr \<lparr>ws_id = 1, ws_user_id = 1, ws_started_at = 1, ws_ended_at = None,
               ws_is_active = True\<rparr>,
          Inr \<lparr>ws_id = 2, ws_user_id = 1, ws_started_at = 2, ws_ended_at = None,
               ws_is_active = True\<rparr>),
         store_user
           \<lparr>workout_sessions :=
              [\<lparr>ws_id = 1, ws_user_id = 1, ws_started_at = 1, ws_ended_at = None,
                ws_is_active = True\<rparr>,
               \<lparr>ws_id = 2, ws_user_id = 1, ws_started_at = 2, ws_ended_at = None,
                ws_is_active = True\<rparr>],
            exercises :=
              [\<lparr>ex_id = 1, ex_session_id = 1, ex_exercise_name = ''Push-ups'',
                ex_assigned_reps = 10, ex_completed_reps = None, ex_created_at = 1\<rparr>,
               \<lparr>ex_id = 2, ex_session_id = 2, ex_exercise_name = ''Push-ups'',
                ex_assigned_reps = 10, ex_completed_reps = None, ex_created_at = 2\<rparr>]\<rparr>)
   \<and> length (active_sessions
        (snd (overlapped_create_workout_sessions 1 1 10 ''Push-ups'' 2 1 10 ''Push-ups''
                store_user)) 1) = 2"
  by (simp add: overlapped_create_workout_sessions_def active_sessions_def run_def
      example_defs serve_defs)

section \<open>Atomicity of the two multi-record writes\<close>

text \<open>
  Claim C9. Whenever \<open>create_workout_session\<close> or \<open>end_workout_session\<close> fails, also
  after its first write, as it does when the second write binds a number that is not
  storable, the committed store is as it was before the call. Whenever one of them
  succeeds, both of its writes are committed together: the new session with its
  exercise, respectively the ended session with the recommendation of its user. So a
  failed \<open>start_workout\<close> or \<open>end_workout\<close> request leaves the store unchanged.
\<close>

theorem multi_record_writes_atomic:
  "(\<forall>e t'. create_workout_session now uid reps name t = (Inl e, t') \<longrightarrow>
        committed t' = committed t)
   \<and> (\<forall>s t'. create_workout_session now uid reps name t = (Inr s, t') \<longrightarrow>
        committed t' = pending t'
        \<and> (\<exists>ex. ex_session_id ex = ws_id s \<and> ex_assigned_reps ex = reps
              \<and> committed t' = (pending t)\<lparr>workout_sessions := workout_sessions (pending t) @ [s],
                                           exercises := exercises (pending t) @ [ex]\<rparr>))
   \<and> (\<forall>e t'. end_workout_session now sid t = (Inl e, t') \<longrightarrow> committed t' = committed t)
   \<and> (\<forall>s n t'. end_workout_session now sid t = (Inr (s, n), t') \<longrightarrow>
        committed t' = pending t'
        \<and> find (\<lambda>x. ws_id x = sid) (workout_sessions (committed t')) = Some s
        \<and> \<not> ws_is_active s \<and> ws_ended_at s = Some now
        \<and> (\<exists>r. find (\<lambda>r. rec_user_id r = ws_user_id s)
                   (workout_recommendations (committed t')) = Some r
               \<and> rec_next_recommended_reps r = n))
   \<and> (\<forall>e db'. start_workout now uid w db = (Inl e, db') \<longrightarrow> db' = db)
   \<and> (\<forall>e db'. end_workout now sid db = (Inl e, db') \<longrightarrow> db' = db)"
proof -
  have c1: "committed t' = committed t"
    if "create_workout_session now uid reps name t = (Inl e, t')" for e t'
    using that by (rule create_workout_session_Inl)
  have c2: "committed t' = pending t'
        \<and> (\<exists>ex. ex_session_id ex = ws_id s \<and> ex_assigned_reps ex = reps
              \<and> committed t' = (pending t)\<lparr>workout_sessions := workout_sessions (pending t) @ [s],
                                           exercises := exercises (pending t) @ [ex]\<rparr>)"
    if run: "create_workout_session now uid reps name t = (Inr s, t')" for s t'
  proof (rule create_workout_session_Inr[OF run])
    fix ex
    assume "ex = \<lparr>ex_id = next_id (map ex_id (exercises (pending t))), ex_session_id = ws_id s,
           ex_exercise_name = name, ex_assigned_reps = reps, ex_completed_reps = None,
           ex_created_at = now\<rparr>"
      and "committed t' = pending t'"
      and "pending t' = (pending t)\<lparr>workout_sessions := workout_sessions (pending t) @ [s],
                               exercises := exercises (pending t) @ [ex]\<rparr>"
    then have "committed t' = pending t' \<and> ex_session_id ex = ws_id s
        \<and> ex_assigned_reps ex = reps
        \<and> committed t' = (pending t)\<lparr>workout_sessions := workout_sessions (pending t) @ [s],
                                     exercises := exercises (pending t) @ [ex]\<rparr>"
      by simp
    then show ?thesis by blast
  qed
  have e1: "committed t' = committed t"
    if "end_workout_session now sid t = (Inl e, t')" for e t'
    using that by (rule end_workout_session_Inl)
  have e2: "committed t' = pending t'
        \<and> find (\<lambda>x. ws_id x = sid) (workout_sessions (committed t')) = Some s
        \<and> \<not> ws_is_active s \<and> ws_ended_at s = Some now
        \<and> (\<exists>r. find (\<lambda>r. rec_user_id r = ws_user_id s)
                   (workout_recommendations (committed t')) = Some r
               \<and> rec_next_recommended_reps r = n)"
    if run: "end_workout_session now sid t = (Inr (s, n), t')" for s n t'
  proof (rule end_workout_session_Inr[OF run])
    fix s0
    assume s0: "find (\<lambda>x. ws_id x = sid) (workout_sessions (pending t)) = Some s0"
      and s: "s = s0\<lparr>ws_ended_at := Some now, ws_is_active := False\<rparr>"
      and cp: "committed t' = pending t'"
      and ws: "workout_sessions (pending t')
         = map (\<lambda>x. if ws_id x = sid then x\<lparr>ws_ended_at := Some now, ws_is_active := False\<rparr>
                     else x) (workout_sessions (pending t))"
      and r: "\<exists>r. find (\<lambda>r. rec_user_id r = ws_user_id s0)
                     (workout_recommendations (pending t')) = Some r
                 \<and> rec_next_recommended_reps r = n"
    have sid: "ws_id s0 = sid" using s0 by (auto simp: find_Some_iff)
    have "find (\<lambda>x. ws_id x = sid) (workout_sessions (pending t')) = Some s"
      unfolding ws s using s0 sid by (subst find_map_upd) simp_all
    then show ?thesis using s cp r by simp
  qed
  have r1: "db' = db" if "start_workout now uid w db = (Inl e, db')" for e db'
  proof (cases "valid_WorkoutSessionCreate w")
    case False
    then show ?thesis using that by (simp add: start_workout_def)
  next
    case True
    let ?f = "create_workout_session now uid (assigned_reps w) (or_push_ups (exercise_name w))"
    obtain r t' where rt: "?f (begin_txn db) = (r, t')"
      and wd: "with_db ?f db = (r, committed t')"
      by (rule with_db_cases)
    then have "r = Inl e" and d: "db' = committed t'"
      using that True by (simp_all add: start_workout_def)
    then have "committed t' = committed (begin_txn db)"
      using rt create_workout_session_Inl by blast
    then show ?thesis using d by (simp add: begin_txn_def)
  qed
  have r2: "db' = db" if "end_workout now sid db = (Inl e, db')" for e db'
  proof -
    obtain r t' where rt: "end_workout_session now sid (begin_txn db) = (r, t')"
      and wd: "with_db (end_workout_session now sid) db = (r, committed t')"
      by (rule with_db_cases)
    then have "r = Inl e" and d: "db' = committed t'"
      using that by (simp_all add: end_workout_def)
    then have "committed t' = committed (begin_txn db)"
      using rt end_workout_session_Inl by blast
    then show ?thesis using d by (simp add: begin_txn_def)
  qed
  show ?thesis
    using c1 c2 e1 e2 r1 r2 by blast
qed

theorem multi_record_writes_atomic_witness:
  "fst (create_workout_session 5 1 (2 ^ 63) ''Push-ups'' (begin_txn store_ended))
     = Inl OverflowError
   \<and> length (workout_sessions (pending (snd (create_workout_session 5 1 (2 ^ 63) ''Push-ups''
        (begin_txn store_ended))))) = 2
   \<and> committed (snd (create_workout_session 5 1 (2 ^ 63) ''Push-ups'' (begin_txn store_ended)))
     = store_ended
   \<and> fst (end_workout_session 3 1 (begin_txn store_largest)) = Inl OverflowError
   \<and> map ws_is_active (workout_sessions (pending (snd (end_workout_session 3 1
        (begin_txn store_largest))))) = [False]
   \<and> committed (snd (end_workout_session 3 1 (begin_txn store_largest))) = store_largest
   \<and> snd (start_workout 5 1 \<lparr>assigned_reps = 2 ^ 63, exercise_name = None\<rparr> store_ended)
       = store_ended
   \<and> snd (end_workout 3 1 store_largest) = store_largest
   \<and> snd (start_workout 5 1 \<lparr>assigned_reps = 12, exercise_name = None\<rparr> store_logged)
       = store_logged
   \<and> (\<exists>r. find (\<lambda>r. rec_user_id r = 1)
            (workout_recommendations
               (committed (snd (end_workout_session 3 1 (begin_txn store_logged))))) = Some r
          \<and> rec_next_recommended_reps r = 12)
   \<and> (\<exists>ex. ex_session_id ex = 2 \<and>
          exercises (committed (snd (create_workout_session 5 1 12 ''Push-ups''
             (begin_txn store_ended)))) = exercises store_ended @ [ex])"
proof -
  let ?w = "\<lparr>assigned_reps = 12, exercise_name = None\<rparr>"
  let ?big = "\<lparr>assigned_reps = 2 ^ 63, exercise_name = None\<rparr>"
  note atomic = multi_record_writes_atomic
  have f1: "fst (create_workout_session 5 1 (2 ^ 63) ''Push-ups'' (begin_txn store_ended))
              = Inl OverflowError"
    and p1: "length (workout_sessions (pending (snd (create_workout_session 5 1 (2 ^ 63)
               ''Push-ups'' (begin_txn store_ended))))) = 2"
    by (simp_all add: example_defs serve_defs)
  have 1: "committed (snd (create_workout_session 5 1 (2 ^ 63) ''Push-ups''
             (begin_txn store_ended))) = store_ended"
  proof -
    have "committed (snd (create_workout_session 5 1 (2 ^ 63) ''Push-ups''
             (begin_txn store_ended))) = committed (begin_txn store_ended)"
      using f1 atomic [where now = 5 and uid = 1 and reps = "2 ^ 63" and name = "''Push-ups''"
          and t = "begin_txn store_ended"]
      by (metis prod.collapse)
    then show ?thesis by (simp add: begin_txn_def)
  qed
  have f2: "fst (end_workout_session 3 1 (begin_txn store_largest)) = Inl OverflowError"
    and p2: "map ws_is_active (workout_sessions (pending (snd (end_workout_session 3 1
        (begin_txn store_largest))))) = [False]"
    by (simp_all add: example_defs serve_defs update_workout_session_def)
  have 2: "committed (snd (end_workout_session 3 1 (begin_txn store_largest))) = store_largest"
  proof -
    have "committed (snd (end_workout_session 3 1 (begin_txn store_largest)))
            = committed (begin_txn store_largest)"
      using f2 atomic [where now = 3 and sid = 1 and t = "begin_txn store_largest"]
      by (metis prod.collapse)
    then show ?thesis by (simp add: begin_txn_def)
  qed
  have f3: "fst (start_workout 5 1 ?big store_ended) = Inl OverflowError"
    by (simp add: example_defs serve_defs)
  have 3: "snd (start_workout 5 1 ?big store_ended) = store_ended"
    using f3 atomic [where now = 5 and uid = 1 and w = ?big and db = store_ended]
    by (metis prod.collapse)
  have f4: "fst (end_workout 3 1 store_largest) = Inl OverflowError"
    by (simp add: example_defs serve_defs update_workout_session_def)
  have 4: "snd (end_workout 3 1 store_largest) = store_largest"
    using f4 atomic [where now = 3 and sid = 1 and db = store_largest]
    by (metis prod.collapse)
  have f5: "fst (start_workout 5 1 ?w store_logged) = Inl (ActiveSessionExistsException 1 1)"
    by (simp add: example_defs serve_defs)
  have 5: "snd (start_workout 5 1 ?w store_logged) = store_logged"
    using f5 atomic [where now = 5 and uid = 1 and w = ?w and db = store_logged]
    by (metis prod.collapse)
  have f6: "fst (end_workout_session 3 1 (begin_txn store_logged))
              = Inr (example_session\<lparr>ws_ended_at := Some 3, ws_is_active := False\<rparr>, 12)"
    by (simp add: example_defs serve_defs)
  have 6: "\<exists>r. find (\<lambda>r. rec_user_id r = 1)
            (workout_recommendations
               (committed (snd (end_workout_session 3 1 (begin_txn store_logged))))) = Some r
          \<and> rec_next_recommended_reps r = 12"
  proof -
    have "end_workout_session 3 1 (begin_txn store_logged)
            = (Inr (example_session\<lparr>ws_ended_at := Some 3, ws_is_active := False\<rparr>, 12),
               snd (end_workout_session 3 1 (begin_txn store_logged)))"
      using f6 by (metis prod.collapse)
    with atomic [where now = 3 and sid = 1 and t = "begin_txn store_logged"]
    have "\<exists>r. find (\<lambda>r. rec_user_id r
                  = ws_user_id (example_session\<lparr>ws_ended_at := Some 3, ws_is_active := False\<rparr>))
            (workout_recommendations
               (committed (snd (end_workout_session 3 1 (begin_txn store_logged))))) = Some r
          \<and> rec_next_recommended_reps r = 12"
      by blast
    then show ?thesis by (simp add: example_session_def)
  qed
  have f7: "fst (create_workout_session 5 1 12 ''Push-ups'' (begin_txn store_ended))
              = Inr \<lparr>ws_id = 2, ws_user_id = 1, ws_started_at = 5, ws_ended_at = None,
                     ws_is_active = True\<rparr>"
    by (simp add: example_defs serve_defs)
  have 7: "\<exists>ex. ex_session_id ex = 2 \<and>
          exercises (committed (snd (create_workout_session 5 1 12 ''Push-ups''
             (begin_txn store_ended)))) = exercises store_ended @ [ex]"
  proof -
    let ?s = "\<lparr>ws_id = 2, ws_user_id = 1, ws_started_at = 5, ws_ended_at = None,
                     ws_is_active = True\<rparr>"
    have "create_workout_session 5 1 12 ''Push-ups'' (begin_txn store_ended)
            = (Inr ?s, snd (create_workout_session 5 1 12 ''Push-ups'' (begin_txn store_ended)))"
      using f7 by (metis prod.collapse)
    with atomic [where now = 5 and uid = 1 and reps = 12 and name = "''Push-ups''"
        and t = "begin_txn store_ended"]
    obtain ex where "ex_session_id ex = ws_id ?s"
      "committed (snd (create_workout_session 5 1 12 ''Push-ups'' (begin_txn store_ended)))
         = (pending (begin_txn store_ended))
             \<lparr>workout_sessions := workout_sessions (pending (begin_txn store_ended)) @ [?s],
              exercises := exercises (pending (begin_txn store_ended)) @ [ex]\<rparr>"
      by blast
    then show ?thesis by (intro exI[of _ ex]) (simp add: begin_txn_def)
  qed
  from f1 p1 1 f2 p2 2 3 4 5 6 7 show ?thesis by blast
qed

section \<open>The stores of a history are consistent\<close>

lemma paired_iff:
  "paired ws exs \<longleftrightarrow>
     (\<forall>e \<in> set exs. ex_session_id e \<in> ws_id ` set ws) \<and>
     (\<forall>s \<in> set ws. \<exists>e. find (\<lambda>e. ex_session_id e = ws_id s) exs = Some e
                          \<and> (\<not> ws_is_active s \<longrightarrow> ex_completed_reps e \<noteq> None))"
  by (auto simp add: paired_def list_all_iff split: option.splits)

lemma paired_append:
  assumes p: "paired ws exs" and fresh: "ws_id s = next_id (map ws_id ws)"
    and act: "ws_is_active s" and e: "ex_session_id e = ws_id s"
  shows "paired (ws @ [s]) (exs @ [e])"
proof -
  have nf: "find (\<lambda>x. ex_session_id x = ws_id s) exs = None"
  proof -
    have "ex_session_id x \<noteq> ws_id s" if "x \<in> set exs" for x
    proof -
      from p that have "ex_session_id x \<in> set (map ws_id ws)" by (auto simp: paired_iff)
      from next_id_fresh[OF this] show ?thesis using fresh by simp
    qed
    then show ?thesis by (simp add: find_None_iff)
  qed
  show ?thesis
    unfolding paired_iff
  proof (intro conjI ballI)
    fix x assume "x \<in> set (exs @ [e])"
    then show "ex_session_id x \<in> ws_id ` set (ws @ [s])"
      using p e by (auto simp: paired_iff)
  next
    fix x assume x: "x \<in> set (ws @ [s])"
    show "\<exists>e'. find (\<lambda>e'. ex_session_id e' = ws_id x) (exs @ [e]) = Some e'
               \<and> (\<not> ws_is_active x \<longrightarrow> ex_completed_reps e' \<noteq> None)"
    proof (cases "x \<in> set ws")
      case True
      with p obtain e' where "find (\<lambda>e'. ex_session_id e' = ws_id x) exs = Some e'"
        "\<not> ws_is_active x \<longrightarrow> ex_completed_reps e' \<noteq> None"
        by (auto simp: paired_iff)
      then show ?thesis by (simp add: find_append)
    next
      case False
      then have "x = s" using x by simp
      then show ?thesis using nf act e by (simp add: find_append)
    qed
  qed
qed

lemma paired_log:
  assumes p: "paired ws exs"
  shows "paired ws (map (\<lambda>e. if ex_id e = pk then e\<lparr>ex_completed_reps := Some c\<rparr> else e) exs)"
  unfolding paired_iff
proof (intro conjI ballI)
  fix x
  assume "x \<in> set (map (\<lambda>e. if ex_id e = pk then e\<lparr>ex_completed_reps := Some c\<rparr> else e) exs)"
  then show "ex_session_id x \<in> ws_id ` set ws"
    using p by (auto simp: paired_iff)
next
  fix s assume "s \<in> set ws"
  with p obtain e where e: "find (\<lambda>e. ex_session_id e = ws_id s) exs = Some e"
    "\<not> ws_is_active s \<longrightarrow> ex_completed_reps e \<noteq> None"
    by (auto simp: paired_iff)
  have "find (\<lambda>e. ex_session_id e = ws_id s)
          (map (\<lambda>e. if ex_id e = pk then e\<lparr>ex_completed_reps := Some c\<rparr> else e) exs)
        = Some (if ex_id e = pk then e\<lparr>ex_completed_reps := Some c\<rparr> else e)"
    using e(1) by (subst find_map_upd) simp_all
  then show "\<exists>e'. find (\<lambda>e. ex_session_id e = ws_id s)
          (map (\<lambda>e. if ex_id e = pk then e\<lparr>ex_completed_reps := Some c\<rparr> else e) exs) = Some e'
        \<and> (\<not> ws_is_active s \<longrightarrow> ex_completed_reps e' \<noteq> None)"
    using e(2) by simp
qed

lemma paired_end:
  assumes p: "paired ws exs" and s0: "find (\<lambda>s. ws_id s = sid) ws = Some s0"
    and ex: "find (\<lambda>e. ex_session_id e = ws_id s0) exs = Some ex"
    and c: "ex_completed_reps ex = Some c"
  shows "paired (map (\<lambda>s. if ws_id s = sid then s\<lparr>ws_ended_at := x, ws_is_active := False\<rparr>
                          else s) ws) exs"
proof -
  let ?f = "\<lambda>s. if ws_id s = sid then s\<lparr>ws_ended_at := x, ws_is_active := False\<rparr> else s"
  have sid: "ws_id s0 = sid" using s0 by (auto simp: find_Some_iff)
  have "map ws_id (map ?f ws) = map ws_id ws"
    by (induction ws) simp_all
  then have "set (map ws_id (map ?f ws)) = set (map ws_id ws)" by simp
  then have ids: "ws_id ` set (map ?f ws) = ws_id ` set ws"
    by (simp only: set_map)
  show ?thesis
    unfolding paired_iff
  proof (intro conjI ballI)
    fix e assume "e \<in> set exs"
    then show "ex_session_id e \<in> ws_id ` set (map ?f ws)"
      using p unfolding ids by (auto simp: paired_iff)
  next
    fix s' assume "s' \<in> set (map ?f ws)"
    then obtain s where s: "s \<in> set ws" "s' = ?f s" by auto
    with p obtain e where e: "find (\<lambda>e. ex_session_id e = ws_id s) exs = Some e"
      "\<not> ws_is_active s \<longrightarrow> ex_completed_reps e \<noteq> None"
      by (auto simp: paired_iff)
    show "\<exists>e. find (\<lambda>e. ex_session_id e = ws_id s') exs = Some e
             \<and> (\<not> ws_is_active s' \<longrightarrow> ex_completed_reps e \<noteq> None)"
    proof (cases "ws_id s = sid")
      case True
      then have "find (\<lambda>e. ex_session_id e = ws_id s') exs = Some ex"
        using ex sid s(2) by simp
      then show ?thesis using c by simp
    next
      case False
      then show ?thesis using e s(2) by simp
    qed
  qed
qed


lemma consistent_create_user:
  "consistent db \<Longrightarrow> consistent (snd (with_db (create_user now name email) db))"
  using create_user_effect[of now name email db]
  by (auto simp add: consistent_def)

lemma consistent_start_workout:
  assumes "consistent db"
  shows "consistent (snd (start_workout now u w db))"
  using start_workout_effect[of now u w db]
proof
  assume "snd (start_workout now u w db) = db"
  then show ?thesis using assms by simp
next
  assume "\<exists>s e. find (\<lambda>s. ws_user_id s = u \<and> ws_is_active s) (workout_sessions db) = None
          \<and> ws_id s = next_id (map ws_id (workout_sessions db))
          \<and> ws_user_id s = u \<and> ws_is_active s \<and> ex_session_id e = ws_id s
          \<and> snd (start_workout now u w db)
              = db\<lparr>workout_sessions := workout_sessions db @ [s],
                    exercises := exercises db @ [e]\<rparr>"
  then obtain s e where s: "ws_id s = next_id (map ws_id (workout_sessions db))"
    "ws_is_active s" "ex_session_id e = ws_id s"
    and eq: "snd (start_workout now u w db)
              = db\<lparr>workout_sessions := workout_sessions db @ [s],
                    exercises := exercises db @ [e]\<rparr>"
    by blast
  have "paired (workout_sessions db @ [s]) (exercises db @ [e])"
    using assms s by (intro paired_append) (simp_all add: consistent_def)
  then show ?thesis by (simp add: eq consistent_def)
qed

lemma consistent_log_exercise_result:
  assumes "consistent db"
  shows "consistent (snd (log_exercise_result sid l db))"
  using log_exercise_result_effect[of sid l db]
proof
  assume "snd (log_exercise_result sid l db) = db"
  then show ?thesis using assms by simp
next
  assume "\<exists>pk. snd (log_exercise_result sid l db)
        = db\<lparr>exercises :=
               map (\<lambda>e. if ex_id e = pk then e\<lparr>ex_completed_reps := Some (completed_reps l)\<rparr>
                         else e) (exercises db)\<rparr>"
  then obtain pk where eq: "snd (log_exercise_result sid l db)
        = db\<lparr>exercises :=
               map (\<lambda>e. if ex_id e = pk then e\<lparr>ex_completed_reps := Some (completed_reps l)\<rparr>
                         else e) (exercises db)\<rparr>"
    by blast
  show ?thesis
    using paired_log[of "workout_sessions db" "exercises db" pk "completed_reps l"] assms
    by (simp add: eq consistent_def)
qed

lemma consistent_end_workout:
  assumes "consistent db"
  shows "consistent (snd (end_workout now sid db))"
  using end_workout_effect[of now sid db]
proof
  assume "snd (end_workout now sid db) = db"
  then show ?thesis using assms by simp
next
  assume "\<exists>s0 ex c. find (\<lambda>s. ws_id s = sid) (workout_sessions db) = Some s0
          \<and> find (\<lambda>e. ex_session_id e = ws_id s0) (exercises db) = Some ex
          \<and> ex_completed_reps ex = Some c
          \<and> workout_sessions (snd (end_workout now sid db))
              = map (\<lambda>x. if ws_id x = sid
                          then x\<lparr>ws_ended_at := Some now, ws_is_active := False\<rparr> else x)
                  (workout_sessions db)
          \<and> exercises (snd (end_workout now sid db)) = exercises db
          \<and> users (snd (end_workout now sid db)) = users db"
  then obtain s0 ex c where s0: "find (\<lambda>s. ws_id s = sid) (workout_sessions db) = Some s0"
    and ex: "find (\<lambda>e. ex_session_id e = ws_id s0) (exercises db) = Some ex"
    and c: "ex_completed_reps ex = Some c"
    and eq: "workout_sessions (snd (end_workout now sid db))
              = map (\<lambda>x. if ws_id x = sid
                          then x\<lparr>ws_ended_at := Some now, ws_is_active := False\<rparr> else x)
                  (workout_sessions db)"
      "exercises (snd (end_workout now sid db)) = exercises db"
    by blast
  have "paired (map (\<lambda>s. if ws_id s = sid
        then s\<lparr>ws_ended_at := Some now, ws_is_active := False\<rparr> else s) (workout_sessions db))
      (exercises db)"
    using assms s0 ex c by (intro paired_end) (simp_all add: consistent_def)
  then show ?thesis by (simp add: eq consistent_def)
qed

lemma consistent_serve: "consistent db \<Longrightarrow> consistent (serve q db)"
proof -
  assume a: "consistent db"
  obtain now r where q: "q = (now, r)" by (cases q)
  show ?thesis
    by (cases r) (simp_all add: q a consistent_create_user consistent_start_workout
        consistent_log_exercise_result consistent_end_workout)
qed

lemma consistent_fold_serve: "consistent db \<Longrightarrow> consistent (fold serve history db)"
  by (induction history arbitrary: db) (simp_all add: consistent_serve)

text \<open>Every store of a history is consistent, so the ended sessions of every user are
  logged in it.\<close>

lemma consistent_run: "consistent (run history)"
  unfolding run_def
  by (rule consistent_fold_serve) (simp add: consistent_def paired_def empty_database_def)

lemma consistent_ended_logged: "consistent db \<Longrightarrow> ended_logged db uid"
  by (auto simp add: consistent_def paired_iff ended_logged_def logged_def exercise_of_def
      ended_sessions_def list_all_iff)

lemma ended_logged_run: "ended_logged (run history) uid"
  by (rule consistent_ended_logged[OF consistent_run])

text \<open>The users of every store of a history have storable keys.\<close>

lemma users_storable_serve: "users_storable db \<Longrightarrow> users_storable (serve q db)"
proof -
  assume a: "users_storable db"
  obtain now r where q: "q = (now, r)" by (cases q)
  show ?thesis
  proof (cases r)
    case (CreateUser name email)
    then show ?thesis using a create_user_effect[of now name email db]
      by (auto simp add: q users_storable_def)
  next
    case (StartWorkout u w)
    then show ?thesis using a start_workout_effect[of now u w db]
      by (auto simp add: q users_storable_def)
  next
    case (LogExercise sid l)
    then show ?thesis using a log_exercise_result_effect[of sid l db]
      by (auto simp add: q users_storable_def)
  next
    case (EndWorkout sid)
    then show ?thesis using a end_workout_effect[of now sid db]
      by (auto simp add: q users_storable_def)
  qed
qed

lemma users_storable_fold_serve:
  "users_storable db \<Longrightarrow> users_storable (fold serve history db)"
  by (induction history arbitrary: db) (simp_all add: users_storable_serve)

lemma users_storable_run: "u \<in> set (users (run history)) \<Longrightarrow> storable (u_id u)"
proof -
  have "users_storable (run history)"
    unfolding run_def
    by (rule users_storable_fold_serve) (simp add: users_storable_def empty_database_def)
  then show "u \<in> set (users (run history)) \<Longrightarrow> storable (u_id u)"
    by (simp add: users_storable_def list_all_iff)
qed

section \<open>Reading the recommendation\<close>

text \<open>The theorems of this section are stated for a user with a storable id whose
  ended sessions are logged. Both hold of every user of a store reached by a history
  (\<open>users_storable_run\<close>, \<open>ended_logged_run\<close>); for an id that is not storable the
  lookup of the user raises \<open>OverflowError\<close>.\<close>

lemma first_desc_None: "first_desc k xs = None \<longleftrightarrow> xs = []"
  by (induction xs) (auto split: option.splits)

lemma first_asc_None: "first_asc k xs = None \<longleftrightarrow> xs = []"
  by (induction xs) (auto split: option.splits)

lemma first_desc_Some:
  "first_desc k xs = Some s \<Longrightarrow> s \<in> set xs \<and> (\<forall>x \<in> set xs. k x \<le> k s)"
proof (induction xs arbitrary: s)
  case Nil then show ?case by simp
next
  case (Cons x xs)
  show ?case
  proof (cases "first_desc k xs")
    case None
    then have "xs = []" by (simp add: first_desc_None)
    then show ?thesis using Cons.prems by simp
  next
    case (Some y)
    from Cons.IH[OF Some] have y: "y \<in> set xs" "\<forall>z \<in> set xs. k z \<le> k y" by simp_all
    show ?thesis
    proof (cases "k x < k y")
      case True
      then have "s = y" using Cons.prems Some by simp
      then show ?thesis using y True by auto
    next
      case False
      then have "s = x" using Cons.prems Some by simp
      moreover have "\<forall>z \<in> set xs. k z \<le> k x" using y False by force
      ultimately show ?thesis by simp
    qed
  qed
qed

lemma first_asc_Some:
  "first_asc k xs = Some s \<Longrightarrow> s \<in> set xs \<and> (\<forall>x \<in> set xs. k s \<le> k x)"
proof (induction xs arbitrary: s)
  case Nil then show ?case by simp
next
  case (Cons x xs)
  show ?case
  proof (cases "first_asc k xs")
    case None
    then have "xs = []" by (simp add: first_asc_None)
    then show ?thesis using Cons.prems by simp
  next
    case (Some y)
    from Cons.IH[OF Some] have y: "y \<in> set xs" "\<forall>z \<in> set xs. k y \<le> k z" by simp_all
    show ?thesis
    proof (cases "k y < k x")
      case True
      then have "s = y" using Cons.prems Some by simp
      then show ?thesis using y True by auto
    next
      case False
      then have "s = x" using Cons.prems Some by simp
      moreover have "\<forall>z \<in> set xs. k x \<le> k z" using y False by force
      ultimately show ?thesis by simp
    qed
  qed
qed

lemma ended_loggedD:
  assumes "ended_logged db uid" and "s \<in> set (ended_sessions db uid)"
  obtains e c where "exercise_of db s = Some e" and "ex_completed_reps e = Some c"
  using assms
  by (auto simp add: ended_logged_def logged_def list_all_iff split: option.splits)

lemma get_user_Inr:
  "storable uid \<Longrightarrow> \<exists>u \<in> set (users db). u_id u = uid \<Longrightarrow> \<exists>u. get_user db uid = Inr u"
  by (cases "find (\<lambda>u. u_id u = uid) (users db)") (auto simp: get_user_def find_None_iff)

text \<open>The view that get_recommendation returns when the user has no ended session.\<close>

lemma get_recommendation_no_ended:
  assumes "storable uid" and "\<exists>u \<in> set (users db). u_id u = uid"
    and "ended_sessions db uid = []"
  shows "get_recommendation db uid =
     Inr \<lparr>recommended_reps =
            (case find (\<lambda>r. rec_user_id r = uid) (workout_recommendations db) of
               Some r \<Rightarrow> rec_next_recommended_reps r | None \<Rightarrow> 10),
          reason = ''Starting recommendation'', last_session = None,
          progression = \<lparr>trend = ''new'', total_increase = 0, sessions_count = 0\<rparr>\<rparr>"
proof -
  from get_user_Inr[OF assms(1) assms(2)] obtain u where "get_user db uid = Inr u" ..
  then show ?thesis using assms(3)
    by (simp add: get_recommendation_def and_exercise_def split: option.splits)
qed

text \<open>The view when the user has ended sessions, all logged.\<close>

lemma get_recommendation_ended:
  assumes "storable uid" and "\<exists>u \<in> set (users db). u_id u = uid" and "ended_logged db uid"
    and "ended_sessions db uid \<noteq> []"
  obtains v l el cl f ef where
    "get_recommendation db uid = Inr v"
    "l \<in> set (ended_sessions db uid)"
    "\<forall>x \<in> set (ended_sessions db uid). ws_ended_at x \<le> ws_ended_at l"
    "exercise_of db l = Some el" "ex_completed_reps el = Some cl"
    "f \<in> set (ended_sessions db uid)"
    "\<forall>x \<in> set (ended_sessions db uid). ws_started_at f \<le> ws_started_at x"
    "exercise_of db f = Some ef"
    "recommended_reps v =
       (case find (\<lambda>r. rec_user_id r = uid) (workout_recommendations db) of
          Some r \<Rightarrow> rec_next_recommended_reps r
        | None \<Rightarrow> calculate_next_reps (ex_assigned_reps el) cl)"
    "reason v = (if cl \<ge> ex_assigned_reps el then ''Completed all reps in last session''
                 else ''Did not complete all reps in last session'')"
    "trend (progression v) = (if cl \<ge> ex_assigned_reps el then ''improving'' else ''adjusting'')"
    "last_session v = Some l"
    "total_increase (progression v) = recommended_reps v - ex_assigned_reps ef"
    "sessions_count (progression v) = length (ended_sessions db uid)"
proof -
  from get_user_Inr[OF assms(1) assms(2)] obtain u where u: "get_user db uid = Inr u" ..
  obtain l where l: "first_desc ws_ended_at (ended_sessions db uid) = Some l"
    using assms(4) by (cases "first_desc ws_ended_at (ended_sessions db uid)")
      (auto simp: first_desc_None)
  obtain f where f: "first_asc ws_started_at (ended_sessions db uid) = Some f"
    using assms(4) by (cases "first_asc ws_started_at (ended_sessions db uid)")
      (auto simp: first_asc_None)
  note lp = first_desc_Some[OF l] and fp = first_asc_Some[OF f]
  from ended_loggedD[OF assms(3)] lp obtain el cl
    where el: "exercise_of db l = Some el" "ex_completed_reps el = Some cl" by blast
  from ended_loggedD[OF assms(3)] fp obtain ef cf
    where ef: "exercise_of db f = Some ef" "ex_completed_reps ef = Some cf" by blast
  define rr where "rr = (case find (\<lambda>r. rec_user_id r = uid) (workout_recommendations db) of
          Some r \<Rightarrow> rec_next_recommended_reps r
        | None \<Rightarrow> calculate_next_reps (ex_assigned_reps el) cl)"
  define v where "v =
       \<lparr>recommended_reps = rr,
        reason = (if cl \<ge> ex_assigned_reps el then ''Completed all reps in last session''
                      else ''Did not complete all reps in last session''),
        last_session = Some l,
        progression =
              \<lparr>trend = (if cl \<ge> ex_assigned_reps el then ''improving'' else ''adjusting''),
               total_increase = rr - ex_assigned_reps ef,
               sessions_count = length (ended_sessions db uid)\<rparr>\<rparr>"
  have g: "get_recommendation db uid = Inr v"
    using u l f el ef
    unfolding v_def rr_def
    by (simp add: get_recommendation_def and_exercise_def split: option.splits)
  show ?thesis
    by (rule that[OF g conjunct1[OF lp] conjunct2[OF lp] el conjunct1[OF fp] conjunct2[OF fp]
          ef(1)]) (simp_all add: v_def rr_def)
qed


lemmas query_defs = ended_logged_def logged_def exercise_of_def ended_sessions_def




text \<open>The ended sessions of a user and the condition \<open>ended_logged\<close>, spelled out on
  the tables.\<close>

lemma set_ended_sessions:
  "set (ended_sessions db uid)
     = {s \<in> set (workout_sessions db). ws_user_id s = uid \<and> \<not> ws_is_active s}"
  by (auto simp add: ended_sessions_def)

lemma ended_sessions_empty:
  "ended_sessions db uid = []
     \<longleftrightarrow> (\<forall>s \<in> set (workout_sessions db). ws_user_id s = uid \<longrightarrow> ws_is_active s)"
  by (auto simp add: ended_sessions_def filter_empty_conv)

lemma logged_iff:
  "logged db s \<longleftrightarrow>
     (\<exists>e c. find (\<lambda>e. ex_session_id e = ws_id s) (exercises db) = Some e
            \<and> ex_completed_reps e = Some c)"
  by (cases "find (\<lambda>e. ex_session_id e = ws_id s) (exercises db)")
    (auto simp add: logged_def exercise_of_def)

lemma ended_logged_iff:
  "ended_logged db uid \<longleftrightarrow>
     (\<forall>s \<in> set (workout_sessions db). ws_user_id s = uid \<and> \<not> ws_is_active s \<longrightarrow>
        (\<exists>e c. find (\<lambda>e. ex_session_id e = ws_id s) (exercises db) = Some e
               \<and> ex_completed_reps e = Some c))"
  by (auto simp add: ended_logged_def list_all_iff set_ended_sessions logged_iff)

text \<open>
  Claim C7. Let a user with a storable id exist, and let every session of the user
  that is not active have an exercise, the first exercise row with its id as session
  id, whose completed reps are set. Then \<open>get_recommendation\<close> returns a view. When
  every session of the user is active, the view has no last session, the reason
  ``Starting recommendation'' and the trend ``new''. When the user has a session that
  is not active, the last session of the view is such a session of this user whose end
  time no other such session of the user exceeds, and with the completed reps \<open>c\<close> and
  assigned reps of its exercise the reason and trend are ``Completed all reps in last
  session'' and ``improving'' when \<open>c\<close> reaches the assigned reps, ``Did not complete
  all reps in last session'' and ``adjusting'' when it does not.
\<close>

theorem get_recommendation_reason_trend:
  assumes "storable uid" and "\<exists>u \<in> set (users db). u_id u = uid"
    and "\<forall>s \<in> set (workout_sessions db). ws_user_id s = uid \<and> \<not> ws_is_active s \<longrightarrow>
           (\<exists>e c. find (\<lambda>e. ex_session_id e = ws_id s) (exercises db) = Some e
                  \<and> ex_completed_reps e = Some c)"
  shows "\<exists>v. get_recommendation db uid = Inr v
     \<and> ((\<forall>s \<in> set (workout_sessions db). ws_user_id s = uid \<longrightarrow> ws_is_active s) \<longrightarrow>
          last_session v = None \<and> reason v = ''Starting recommendation''
          \<and> trend (progression v) = ''new'')
     \<and> ((\<exists>s \<in> set (workout_sessions db). ws_user_id s = uid \<and> \<not> ws_is_active s) \<longrightarrow>
          (\<exists>s e c. last_session v = Some s
              \<and> s \<in> set (workout_sessions db) \<and> ws_user_id s = uid \<and> \<not> ws_is_active s
              \<and> (\<forall>x \<in> set (workout_sessions db).
                    ws_user_id x = uid \<and> \<not> ws_is_active x \<longrightarrow> ws_ended_at x \<le> ws_ended_at s)
              \<and> find (\<lambda>e. ex_session_id e = ws_id s) (exercises db) = Some e
              \<and> ex_completed_reps e = Some c
              \<and> (c \<ge> ex_assigned_reps e \<longrightarrow>
                    reason v = ''Completed all reps in last session''
                    \<and> trend (progression v) = ''improving'')
              \<and> (c < ex_assigned_reps e \<longrightarrow>
                    reason v = ''Did not complete all reps in last session''
                    \<and> trend (progression v) = ''adjusting'')))"
proof -
  have el: "ended_logged db uid"
    using assms(3) by (simp only: ended_logged_iff)
  show ?thesis
  proof (cases "ended_sessions db uid = []")
    case True
    then have act: "\<forall>s \<in> set (workout_sessions db). ws_user_id s = uid \<longrightarrow> ws_is_active s"
      by (simp only: ended_sessions_empty)
    show ?thesis
      using get_recommendation_no_ended[OF assms(1) assms(2) True] act by auto
  next
    case False
    show ?thesis
    proof (rule get_recommendation_ended[OF assms(1) assms(2) el False])
      fix v l el cl
      assume g: "get_recommendation db uid = Inr v"
        and l: "l \<in> set (ended_sessions db uid)"
          "\<forall>x \<in> set (ended_sessions db uid). ws_ended_at x \<le> ws_ended_at l"
          "exercise_of db l = Some el" "ex_completed_reps el = Some cl"
        and r: "reason v = (if cl \<ge> ex_assigned_reps el
                  then ''Completed all reps in last session''
                  else ''Did not complete all reps in last session'')"
        and t: "trend (progression v)
                  = (if cl \<ge> ex_assigned_reps el then ''improving'' else ''adjusting'')"
        and ls: "last_session v = Some l"
      have l1: "l \<in> set (workout_sessions db) \<and> ws_user_id l = uid \<and> \<not> ws_is_active l"
        using l(1) by (simp add: set_ended_sessions)
      have l2: "\<forall>x \<in> set (workout_sessions db).
                  ws_user_id x = uid \<and> \<not> ws_is_active x \<longrightarrow> ws_ended_at x \<le> ws_ended_at l"
        using l(2) by (simp add: set_ended_sessions)
      have l3: "find (\<lambda>e. ex_session_id e = ws_id l) (exercises db) = Some el"
        using l(3) by (simp add: exercise_of_def)
      have some: "\<not> (\<forall>s \<in> set (workout_sessions db). ws_user_id s = uid \<longrightarrow> ws_is_active s)"
        using False by (simp add: ended_sessions_empty)
      have c2: "(\<forall>s \<in> set (workout_sessions db). ws_user_id s = uid \<longrightarrow> ws_is_active s) \<longrightarrow>
          last_session v = None \<and> reason v = ''Starting recommendation''
          \<and> trend (progression v) = ''new''"
        using some by blast
      have c3: "\<exists>s e c. last_session v = Some s
              \<and> s \<in> set (workout_sessions db) \<and> ws_user_id s = uid \<and> \<not> ws_is_active s
              \<and> (\<forall>x \<in> set (workout_sessions db).
                    ws_user_id x = uid \<and> \<not> ws_is_active x \<longrightarrow> ws_ended_at x \<le> ws_ended_at s)
              \<and> find (\<lambda>e. ex_session_id e = ws_id s) (exercises db) = Some e
              \<and> ex_completed_reps e = Some c
              \<and> (c \<ge> ex_assigned_reps e \<longrightarrow>
                    reason v = ''Completed all reps in last session''
                    \<and> trend (progression v) = ''improving'')
              \<and> (c < ex_assigned_reps e \<longrightarrow>
                    reason v = ''Did not complete all reps in last session''
                    \<and> trend (progression v) = ''adjusting'')"
        using l1 l2 l3 l(4) r t ls
        by (intro exI[of _ l] exI[of _ el] exI[of _ cl]) simp
      show ?thesis
        by (rule exI[of _ v], intro conjI) (rule g, rule c2, rule impI, rule c3)
    qed
  qed
qed

theorem get_recommendation_reason_trend_witness:
  "(\<exists>v. get_recommendation store_two_users 3 = Inr v
        \<and> last_session v = None
        \<and> reason v = ''Starting recommendation'' \<and> trend (progression v) = ''new'')
   \<and> (\<exists>v. get_recommendation store_two_users 1 = Inr v
        \<and> map_option ws_id (last_session v) = Some 2
        \<and> reason v = ''Did not complete all reps in last session''
        \<and> trend (progression v) = ''adjusting'')
   \<and> (\<exists>v. get_recommendation store_two_users 2 = Inr v
        \<and> map_option ws_id (last_session v) = Some 3
        \<and> reason v = ''Completed all reps in last session''
        \<and> trend (progression v) = ''improving'')
   \<and> (\<exists>v. get_recommendation store_started 1 = Inr v
        \<and> reason v = ''Starting recommendation'' \<and> trend (progression v) = ''new'')
   \<and> map (\<lambda>uid. map_sum id (\<lambda>v. (map_option ws_id (last_session v), trend (progression v)))
               (get_recommendation store_two_users uid)) [1, 2, 3]
        = [Inr (Some 2, ''adjusting''), Inr (Some 3, ''improving''), Inr (None, ''new'')]"
proof -
  have st: "storable 1" "storable 2" "storable 3" by (simp_all add: storable_def)
  have ev: "map (\<lambda>uid. map_sum id (\<lambda>v. (map_option ws_id (last_session v), trend (progression v)))
               (get_recommendation store_two_users uid)) [1, 2, 3]
        = [Inr (Some 2, ''adjusting''), Inr (Some 3, ''improving''), Inr (None, ''new'')]"
    by (simp add: get_recommendation_def get_user_def and_exercise_def query_defs
        store_two_users_def storable_def)
  have 1: "\<exists>v. get_recommendation store_two_users 3 = Inr v
        \<and> last_session v = None
        \<and> reason v = ''Starting recommendation'' \<and> trend (progression v) = ''new''"
    using get_recommendation_reason_trend [of 3 store_two_users] st
    by (auto simp add: store_two_users_def)
  have 2: "\<exists>v. get_recommendation store_two_users 1 = Inr v
        \<and> map_option ws_id (last_session v) = Some 2
        \<and> reason v = ''Did not complete all reps in last session''
        \<and> trend (progression v) = ''adjusting''"
    using get_recommendation_reason_trend [of 1 store_two_users] st
    by (auto simp add: store_two_users_def)
  have 3: "\<exists>v. get_recommendation store_two_users 2 = Inr v
        \<and> map_option ws_id (last_session v) = Some 3
        \<and> reason v = ''Completed all reps in last session''
        \<and> trend (progression v) = ''improving''"
    using get_recommendation_reason_trend [of 2 store_two_users] st
    by (auto simp add: store_two_users_def)
  have 4: "\<exists>v. get_recommendation store_started 1 = Inr v
        \<and> reason v = ''Starting recommendation'' \<and> trend (progression v) = ''new''"
    using get_recommendation_reason_trend [of 1 store_started] st
    by (auto simp add: example_defs)
  from 1 2 3 4 ev show ?thesis by blast
qed

text \<open>
  Claim C6. For an existing user, with a storable id, whose ended sessions are logged,
  the sessions count of the view is the number of sessions of the user that are not active, and the total
  increase is 0 when there is none; otherwise it is the recommended reps of the view
  minus the assigned reps of an ended session with the earliest start time.
\<close>

theorem get_recommendation_progression:
  assumes "storable uid" and "\<exists>u \<in> set (users db). u_id u = uid"
    and "ended_logged db uid"
  shows "\<exists>v. get_recommendation db uid = Inr v
     \<and> sessions_count (progression v)
         = length (filter (\<lambda>s. ws_user_id s = uid \<and> \<not> ws_is_active s) (workout_sessions db))
     \<and> (ended_sessions db uid = [] \<longrightarrow> total_increase (progression v) = 0)
     \<and> (ended_sessions db uid \<noteq> [] \<longrightarrow>
          (\<exists>s e. s \<in> set (ended_sessions db uid)
              \<and> (\<forall>x \<in> set (ended_sessions db uid). ws_started_at s \<le> ws_started_at x)
              \<and> exercise_of db s = Some e
              \<and> total_increase (progression v) = recommended_reps v - ex_assigned_reps e))"
proof (cases "ended_sessions db uid = []")
  case True
  then have "filter (\<lambda>s. ws_user_id s = uid \<and> \<not> ws_is_active s) (workout_sessions db) = []"
    by (simp add: ended_sessions_def)
  then show ?thesis
    using get_recommendation_no_ended[OF assms(1) assms(2) True] True by simp
next
  case False
  have cnt: "length (ended_sessions db uid)
      = length (filter (\<lambda>s. ws_user_id s = uid \<and> \<not> ws_is_active s) (workout_sessions db))"
    by (simp add: ended_sessions_def)
  show ?thesis
  proof (rule get_recommendation_ended[OF assms False])
    fix v f ef
    assume g: "get_recommendation db uid = Inr v"
      and f: "f \<in> set (ended_sessions db uid)"
        "\<forall>x \<in> set (ended_sessions db uid). ws_started_at f \<le> ws_started_at x"
        "exercise_of db f = Some ef"
      and ti: "total_increase (progression v) = recommended_reps v - ex_assigned_reps ef"
      and sc: "sessions_count (progression v) = length (ended_sessions db uid)"
    have "\<exists>s e. s \<in> set (ended_sessions db uid)
              \<and> (\<forall>x \<in> set (ended_sessions db uid). ws_started_at s \<le> ws_started_at x)
              \<and> exercise_of db s = Some e
              \<and> total_increase (progression v) = recommended_reps v - ex_assigned_reps e"
      using f ti by (intro exI[of _ f] exI[of _ ef]) simp
    then show ?thesis using g False sc cnt by (intro exI[of _ v]) simp
  qed
qed


theorem get_recommendation_progression_witness:
  "(\<exists>v. get_recommendation store_started 1 = Inr v
        \<and> sessions_count (progression v) = 0 \<and> total_increase (progression v) = 0)
   \<and> (\<exists>v. get_recommendation store_ended 1 = Inr v \<and> recommended_reps v = 12
        \<and> sessions_count (progression v) = 1 \<and> total_increase (progression v) = 2)
   \<and> (\<exists>v. get_recommendation store_two_users 1 = Inr v \<and> recommended_reps v = 11
        \<and> sessions_count (progression v) = 2 \<and> total_increase (progression v) = 1)
   \<and> (\<exists>v. get_recommendation store_two_users 2 = Inr v \<and> recommended_reps v = 22
        \<and> sessions_count (progression v) = 1 \<and> total_increase (progression v) = 2)"
proof -
  have st: "storable 1" and st2: "storable 2" by (simp_all add: storable_def)
  have u: "\<exists>u \<in> set (users store_started). u_id u = 1"
    "\<exists>u \<in> set (users store_ended). u_id u = 1"
    "\<exists>u \<in> set (users store_two_users). u_id u = 1"
    "\<exists>u \<in> set (users store_two_users). u_id u = 2"
    by (simp_all add: example_defs store_two_users_def)
  have l: "ended_logged store_started 1" "ended_logged store_ended 1"
    "ended_logged store_two_users 1" "ended_logged store_two_users 2"
    by (simp_all add: query_defs example_defs store_two_users_def)
  have 1: "\<exists>v. get_recommendation store_started 1 = Inr v
        \<and> sessions_count (progression v) = 0 \<and> total_increase (progression v) = 0"
    using get_recommendation_progression [OF st u(1) l(1)]
    by (auto simp add: example_defs query_defs)
  have r: "\<exists>v. get_recommendation store_ended 1 = Inr v \<and> recommended_reps v = 12"
    by (simp add: get_recommendation_def get_user_def and_exercise_def query_defs
        example_defs storable_def)
  have 2: "\<exists>v. get_recommendation store_ended 1 = Inr v \<and> recommended_reps v = 12
        \<and> sessions_count (progression v) = 1 \<and> total_increase (progression v) = 2"
    using get_recommendation_progression [OF st u(2) l(2)] r
    by (auto simp add: example_defs query_defs)
  have r3: "\<exists>v. get_recommendation store_two_users 1 = Inr v \<and> recommended_reps v = 11"
    by (simp add: get_recommendation_def get_user_def and_exercise_def query_defs
        store_two_users_def storable_def)
  have 3: "\<exists>v. get_recommendation store_two_users 1 = Inr v \<and> recommended_reps v = 11
        \<and> sessions_count (progression v) = 2 \<and> total_increase (progression v) = 1"
    using get_recommendation_progression [OF st u(3) l(3)] r3
    by (auto simp add: store_two_users_def query_defs)
  have r4: "\<exists>v. get_recommendation store_two_users 2 = Inr v \<and> recommended_reps v = 22"
    by (simp add: get_recommendation_def get_user_def and_exercise_def query_defs
        store_two_users_def storable_def)
  have 4: "\<exists>v. get_recommendation store_two_users 2 = Inr v \<and> recommended_reps v = 22
        \<and> sessions_count (progression v) = 1 \<and> total_increase (progression v) = 2"
    using get_recommendation_progression [OF st2 u(4) l(4)] r4
    by (auto simp add: store_two_users_def query_defs)
  from 1 2 3 4 show ?thesis by blast
qed

section \<open>Pagination metadata\<close>

text \<open>The page size never exceeds 100, and for a page size other than 0 the number of
  pages is the ceiling of the quotient, or 1 when nothing is listed.\<close>

lemma clamp_limit_max: "clamp_limit limit \<le> 100 \<and> (limit \<le> 100 \<longrightarrow> clamp_limit limit = limit)"
  by (simp add: clamp_limit_def)

lemma calc_total_pages_ceiling:
  assumes "limit \<noteq> 0"
  shows "calc_total_pages total_n limit =
           Inr (if total_n > 0 then \<lceil>real_of_int total_n / real_of_int limit\<rceil> else 1)"
  using assms by (simp add: calc_total_pages_def ceiling_divide_eq_div)

lemma pagination_meta_pages:
  assumes "clamp_limit limit \<noteq> 0"
  shows "\<exists>m. pagination_meta page limit total_n = Inr m
           \<and> items_per_page m = min limit 100
           \<and> total_pages m =
               (if total_n > 0 then \<lceil>real_of_int total_n / real_of_int (min limit 100)\<rceil> else 1)"
  using assms calc_total_pages_ceiling[of "clamp_limit limit" total_n]
  by (simp add: pagination_meta_def Let_def clamp_limit_def)

lemma pagination_meta_examples:
  "map_sum id total_pages (pagination_meta 1 20 45) = Inr 3"
  "map_sum id total_pages (pagination_meta 1 20 0) = Inr 1"
  "map_sum id items_per_page (pagination_meta 1 500 45) = Inr 100"
  by (simp_all add: pagination_meta_def calc_total_pages_def clamp_limit_def Let_def)

lemma list_users_meta_examples:
  "map_sum id total_pages (list_users_meta store_started 1 20) = Inr 1"
  "map_sum id total_items (list_users_meta store_two_users 2 2) = Inr 3"
  "map_sum id total_pages (list_users_meta store_two_users 2 2) = Inr 2"
  "list_users_meta store_started (2 ^ 62) 20 = Inl OverflowError"
  by (simp_all add: list_users_meta_def page_query_def storable_def count_users_def
      pagination_meta_def calc_total_pages_def clamp_limit_def Let_def example_defs
      store_two_users_def)

text \<open>
  Claim C8. Not every listing request gets its \<open>total_pages\<close>: \<open>limit = 0\<close> passes
  the clamp \<open>min(limit, 100)\<close> unchanged, and with at least one row to list the
  division \<open>total / limit\<close> raises \<open>ZeroDivisionError\<close>, which the service answers
  with status 500. Here both listings are asked for page 1 with \<open>limit = 0\<close> on a
  store with one user who has one session.
\<close>

theorem listing_with_zero_limit_fails:
  "list_users_meta store_started 1 0 = Inl ZeroDivisionError
   \<and> list_user_workouts_meta store_started 1 ''all'' 1 0 = Inl ZeroDivisionError
   \<and> status_code ZeroDivisionError = 500"
  by (simp add: list_users_meta_def list_user_workouts_meta_def count_users_def
      count_user_workout_sessions_def get_user_def page_query_def storable_def
      pagination_meta_def calc_total_pages_def clamp_limit_def Let_def example_defs)

end
